theory Spec2Isabelle
  imports Complex_Main
begin

section \<open>Data model of the workflow engine\<close>

text \<open>
  The embedding follows \<^verbatim>\<open>services/workflow-engine\<close>: the models package (the
  records below), \<^verbatim>\<open>services/executor.go\<close> (the step executor) and the engine
  (scheduler and orchestration loop).

  Identifiers (\<^verbatim>\<open>uuid.UUID\<close>) are natural numbers. Times are integers, in
  milliseconds. The Go enums \<^verbatim>\<open>WorkflowStatus\<close>, \<^verbatim>\<open>StepStatus\<close> and \<^verbatim>\<open>StepType\<close> are
  declared as \<^verbatim>\<open>string\<close> in the source and stay strings here, so that a value
  outside the declared constants (an unknown step type) is representable.
\<close>

type_synonym uuid = nat
type_synonym time = int
type_synonym error = string

text \<open>
  A value of type \<^verbatim>\<open>interface{}\<close> that came out of \<^verbatim>\<open>encoding/json\<close>: nil, bool,
  float64, string, \<^verbatim>\<open>[]interface{}\<close> or \<^verbatim>\<open>map[string]interface{}\<close>. A JSON number is
  a finite float64, hence a rational; the order and equality of such floats are those of
  the rationals. A Go map is an association list read with \<^const>\<open>map_of\<close>.
\<close>

datatype json =
    JNull
  | JBool bool
  | JNum rat
  | JStr string
  | JArr "json list"
  | JObj "(string \<times> json) list"

type_synonym JSONB = "(string \<times> json) list"

text \<open>A Go call either returns or panics; nothing in the engine recovers a panic.\<close>

datatype 'a go = Ret 'a | Panic string

abbreviation WorkflowStatusPending :: string where "WorkflowStatusPending \<equiv> ''pending''"
abbreviation WorkflowStatusRunning :: string where "WorkflowStatusRunning \<equiv> ''running''"
abbreviation WorkflowStatusCompleted :: string where "WorkflowStatusCompleted \<equiv> ''completed''"
abbreviation WorkflowStatusFailed :: string where "WorkflowStatusFailed \<equiv> ''failed''"
abbreviation WorkflowStatusCancelled :: string where "WorkflowStatusCancelled \<equiv> ''cancelled''"
abbreviation WorkflowStatusPaused :: string where "WorkflowStatusPaused \<equiv> ''paused''"

abbreviation StepStatusPending :: string where "StepStatusPending \<equiv> ''pending''"
abbreviation StepStatusRunning :: string where "StepStatusRunning \<equiv> ''running''"
abbreviation StepStatusCompleted :: string where "StepStatusCompleted \<equiv> ''completed''"
abbreviation StepStatusFailed :: string where "StepStatusFailed \<equiv> ''failed''"
abbreviation StepStatusSkipped :: string where "StepStatusSkipped \<equiv> ''skipped''"

abbreviation StepTypeAction :: string where "StepTypeAction \<equiv> ''action''"
abbreviation StepTypeCondition :: string where "StepTypeCondition \<equiv> ''condition''"
abbreviation StepTypeParallel :: string where "StepTypeParallel \<equiv> ''parallel''"
abbreviation StepTypeWait :: string where "StepTypeWait \<equiv> ''wait''"
abbreviation StepTypeSubflow :: string where "StepTypeSubflow \<equiv> ''subflow''"

record StepCondition =
  cond_Field :: string
  cond_Operator :: string
  cond_Value :: json

record RetryPolicy =
  rp_MaxRetries :: int
  rp_Delay :: int

record WorkflowStepDefinition =
  def_ID :: string
  def_Name :: string
  def_Type :: string
  def_Config :: JSONB
  def_NextSteps :: "string list"
  def_Conditions :: "StepCondition list"
  def_RetryPolicy :: "RetryPolicy option"

record WorkflowSchema =
  Steps :: "WorkflowStepDefinition list"

text \<open>
  The template row. Its \<^verbatim>\<open>schema\<close> column is a JSON document that \<^verbatim>\<open>parseSchema\<close>
  turns into a \<^verbatim>\<open>WorkflowSchema\<close> with \<^verbatim>\<open>json.Marshal\<close> and \<^verbatim>\<open>json.Unmarshal\<close>. That
  decoder is library code; the row carries what it yields for the document: the decoding
  error or the schema.
\<close>

record WorkflowTemplate =
  tmpl_ID :: uuid
  tmpl_Schema :: "error + WorkflowSchema"

record WorkflowInstance =
  inst_ID :: uuid
  inst_TemplateID :: uuid
  inst_Status :: string
  inst_Context :: JSONB
  inst_Variables :: JSONB
  inst_CurrentStep :: string
  inst_StartedAt :: "time option"
  inst_CompletedAt :: "time option"
  inst_ErrorMessage :: string

record WorkflowStep =
  step_ID :: uuid
  step_InstanceID :: uuid
  step_StepID :: string
  step_StepType :: string
  step_Status :: string
  step_InputData :: JSONB
  step_OutputData :: JSONB
  step_ErrorData :: "JSONB option"
  step_StartedAt :: "time option"
  step_CompletedAt :: "time option"
  step_RetryCount :: int

record StepResult =
  res_Success :: bool
  res_Data :: JSONB
  res_Error :: string

text \<open>The envelope that \<^verbatim>\<open>publishStepEvent\<close> sends on the channel \<^verbatim>\<open>workflow:events\<close>.\<close>

record Event =
  ev_type :: string
  ev_instance_id :: uuid
  ev_step_id :: string
  ev_timestamp :: int
  ev_success :: "bool option"
  ev_error :: "string option"

record Config =
  MaxConcurrentWorkflows :: nat
  WorkflowCheckInterval :: int
  StepRetryLimit :: int
  StepTimeout :: int

section \<open>Condition evaluation (executor.go)\<close>

text \<open>
  \<^verbatim>\<open>value == condition.Value\<close> compares two interface values. Values of different
  dynamic types are unequal; two slices or two maps are not comparable and the comparison
  panics at run time; otherwise the values are compared.
\<close>

fun interface_eq :: "json \<Rightarrow> json \<Rightarrow> bool go" where
  "interface_eq (JArr xs) (JArr ys) = Panic ''runtime error: comparing uncomparable type []interface {}''"
| "interface_eq (JObj xs) (JObj ys) = Panic ''runtime error: comparing uncomparable type map[string]interface {}''"
| "interface_eq a b = Ret (a = b)"

text \<open>\<^verbatim>\<open>strings.Contains(s, substr)\<close>: \<^verbatim>\<open>substr\<close> occurs in \<^verbatim>\<open>s\<close> as a contiguous run.\<close>

fun strings_Contains :: "string \<Rightarrow> string \<Rightarrow> bool" where
  "strings_Contains [] substr = (substr = [])"
| "strings_Contains (c # s) substr =
     (take (length substr) (c # s) = substr \<or> strings_Contains s substr)"

definition evaluateCondition :: "StepCondition \<Rightarrow> JSONB \<Rightarrow> bool go" where
  "evaluateCondition condition variables =
     (case map_of variables (cond_Field condition) of
        None \<Rightarrow> Ret False
      | Some v \<Rightarrow>
          if cond_Operator condition = ''eq'' \<or> cond_Operator condition = ''equals'' then
            interface_eq v (cond_Value condition)
          else if cond_Operator condition = ''ne'' \<or> cond_Operator condition = ''not_equals'' then
            (case interface_eq v (cond_Value condition) of
               Ret b \<Rightarrow> Ret (\<not> b)
             | Panic m \<Rightarrow> Panic m)
          else if cond_Operator condition = ''gt'' \<or> cond_Operator condition = ''greater_than'' then
            (case v of
               JNum vFloat \<Rightarrow>
                 (case cond_Value condition of
                    JNum cFloat \<Rightarrow> Ret (vFloat > cFloat)
                  | _ \<Rightarrow> Ret False)
             | _ \<Rightarrow> Ret False)
          else if cond_Operator condition = ''lt'' \<or> cond_Operator condition = ''less_than'' then
            (case v of
               JNum vFloat \<Rightarrow>
                 (case cond_Value condition of
                    JNum cFloat \<Rightarrow> Ret (vFloat < cFloat)
                  | _ \<Rightarrow> Ret False)
             | _ \<Rightarrow> Ret False)
          else if cond_Operator condition = ''contains'' then
            (case v of
               JStr vStr \<Rightarrow>
                 (case cond_Value condition of
                    JStr cStr \<Rightarrow> Ret (strings_Contains vStr cStr)
                  | _ \<Rightarrow> Ret False)
             | _ \<Rightarrow> Ret False)
          else Ret False)"

text \<open>The loop of \<^verbatim>\<open>executeConditionStep\<close>: it returns at the first predicate that is false.\<close>

fun conditions_loop :: "StepCondition list \<Rightarrow> JSONB \<Rightarrow> (StepResult option \<times> error option) go" where
  "conditions_loop [] variables =
     Ret (Some \<lparr>res_Success = True, res_Data = [(''reason'', JStr ''all conditions met'')], res_Error = ''''\<rparr>, None)"
| "conditions_loop (condition # rest) variables =
     (case evaluateCondition condition variables of
        Panic m \<Rightarrow> Panic m
      | Ret b \<Rightarrow>
          if \<not> b then
            Ret (Some \<lparr>res_Success = False, res_Data = [(''reason'', JStr ''condition not met'')], res_Error = ''''\<rparr>, None)
          else conditions_loop rest variables)"

definition executeConditionStep ::
  "WorkflowInstance \<Rightarrow> WorkflowStepDefinition \<Rightarrow> (StepResult option \<times> error option) go" where
  "executeConditionStep instance stepDef =
     (let conditions = def_Conditions stepDef in
      if length conditions = 0 then
        Ret (Some \<lparr>res_Success = False, res_Data = [], res_Error = ''no conditions defined''\<rparr>, None)
      else conditions_loop conditions (inst_Variables instance))"

section \<open>The world the engine runs in\<close>

text \<open>
  The durable store (tables \<^verbatim>\<open>workflow.instances\<close>, \<^verbatim>\<open>workflow.templates\<close>,
  \<^verbatim>\<open>workflow.steps\<close>), the Redis channel, the wall clock and the engine's context.

  \<^item> \<open>faults\<close> is the schedule of store failures: each store call consumes the head;
    \<open>None\<close> (or an exhausted schedule) lets the call succeed, \<open>Some err\<close> makes it
    return \<open>err\<close> without touching the tables.
  \<^item> \<open>published\<close> lists the events handed to \<^verbatim>\<open>redis.Publish\<close>, oldest first.
  \<^item> \<open>exec_log\<close> lists the \<^verbatim>\<open>"Executing step"\<close> lines of the logger, oldest first:
    the instance and step id of every step whose execution began. Other log lines have no
    effect on the state and are left out.
  \<^item> \<open>clock\<close> is what \<^verbatim>\<open>time.Now()\<close> reads; \<^verbatim>\<open>time.Sleep\<close> advances it.
  \<^item> \<open>ctx_done\<close> holds once the engine's context has been cancelled (\<^verbatim>\<open>Stop\<close>).
\<close>

record world =
  instances :: "uuid \<rightharpoonup> WorkflowInstance"
  templates :: "uuid \<rightharpoonup> WorkflowTemplate"
  steps :: "WorkflowStep list"
  published :: "Event list"
  exec_log :: "(uuid \<times> string) list"
  clock :: time
  faults :: "error option list"
  ctx_done :: bool

definition db_call :: "world \<Rightarrow> error option \<times> world" where
  "db_call w = (case faults w of [] \<Rightarrow> (None, w) | f # fs \<Rightarrow> (f, w\<lparr>faults := fs\<rparr>))"

definition sleep :: "time \<Rightarrow> world \<Rightarrow> world" where
  "sleep d w = w\<lparr>clock := clock w + max 0 d\<rparr>"

text \<open>
  \<^verbatim>\<open>db.Save(step)\<close> writes every column of the row with the step's primary key, and
  inserts the row when the table has none with that key.
\<close>

definition upsert :: "WorkflowStep \<Rightarrow> WorkflowStep list \<Rightarrow> WorkflowStep list" where
  "upsert s rows =
     (if \<exists>r \<in> set rows. step_ID r = step_ID s
      then map (\<lambda>r. if step_ID r = step_ID s then s else r) rows
      else rows @ [s])"

definition save_step :: "WorkflowStep \<Rightarrow> world \<Rightarrow> error option \<times> world" where
  "save_step s w =
     (case db_call w of
        (Some err, w1) \<Rightarrow> (Some err, w1)
      | (None, w1) \<Rightarrow> (None, w1\<lparr>steps := upsert s (steps w1)\<rparr>))"

text \<open>The primary key the store generates for a new row (\<^verbatim>\<open>uuid_generate_v4()\<close>): one not in use.\<close>

definition fresh_step_ID :: "WorkflowStep list \<Rightarrow> uuid" where
  "fresh_step_ID rows = Suc (fold max (map step_ID rows) 0)"

text \<open>
  \<^verbatim>\<open>db.Model(&WorkflowInstance{}).Where("id = ?", id).Update(s)\<close>: the row with that id is
  changed; when there is none, no row is affected and the call still succeeds.
\<close>

definition update_instance ::
  "uuid \<Rightarrow> (WorkflowInstance \<Rightarrow> WorkflowInstance) \<Rightarrow> world \<Rightarrow> error option \<times> world" where
  "update_instance instanceID f w =
     (case db_call w of
        (Some err, w1) \<Rightarrow> (Some err, w1)
      | (None, w1) \<Rightarrow>
          (case instances w1 instanceID of
             None \<Rightarrow> (None, w1)
           | Some row \<Rightarrow> (None, w1\<lparr>instances := (instances w1)(instanceID \<mapsto> f row)\<rparr>)))"

section \<open>The step executor (executor.go)\<close>

type_synonym step_return = "StepResult option \<times> error option \<times> WorkflowInstance \<times> world"

definition createOrUpdateStep ::
  "uuid \<Rightarrow> WorkflowStepDefinition \<Rightarrow> world \<Rightarrow> (error + WorkflowStep) \<times> world" where
  "createOrUpdateStep instanceID stepDef w =
     (case db_call w of
        (Some err, w1) \<Rightarrow> (Inl err, w1)
      | (None, w1) \<Rightarrow>
          (case find (\<lambda>r. step_InstanceID r = instanceID \<and> step_StepID r = def_ID stepDef) (steps w1) of
             Some step \<Rightarrow> (Inr step, w1)
           | None \<Rightarrow>
               (let step = \<lparr>step_ID = fresh_step_ID (steps w1),
                            step_InstanceID = instanceID,
                            step_StepID = def_ID stepDef,
                            step_StepType = def_Type stepDef,
                            step_Status = StepStatusPending,
                            step_InputData = def_Config stepDef,
                            step_OutputData = [],
                            step_ErrorData = None,
                            step_StartedAt = None,
                            step_CompletedAt = None,
                            step_RetryCount = 0\<rparr>
                in case db_call w1 of
                     (Some err, w2) \<Rightarrow> (Inl err, w2)
                   | (None, w2) \<Rightarrow> (Inr step, w2\<lparr>steps := steps w2 @ [step]\<rparr>))))"

definition publishStepEvent :: "string \<Rightarrow> uuid \<Rightarrow> string \<Rightarrow> StepResult option \<Rightarrow> world \<Rightarrow> world" where
  "publishStepEvent eventType instanceID stepID result w =
     w\<lparr>published := published w @
        [\<lparr>ev_type = eventType,
          ev_instance_id = instanceID,
          ev_step_id = stepID,
          ev_timestamp = clock w div 1000,
          ev_success = map_option res_Success result,
          ev_error = (case result of
                        None \<Rightarrow> None
                      | Some r \<Rightarrow> if res_Error r \<noteq> '''' then Some (res_Error r) else None)\<rparr>]\<rparr>"

definition executeHTTPRequest :: "WorkflowInstance \<Rightarrow> WorkflowStepDefinition \<Rightarrow> world \<Rightarrow> step_return" where
  "executeHTTPRequest instance stepDef w =
     (case map_of (def_Config stepDef) ''url'' of
        Some (JStr url) \<Rightarrow>
          (let method = (case map_of (def_Config stepDef) ''method'' of
                           Some (JStr m) \<Rightarrow> m
                         | _ \<Rightarrow> ''GET'')
           in (Some \<lparr>res_Success = True,
                     res_Data = [(''method'', JStr method), (''url'', JStr url),
                                 (''status_code'', JNum 200), (''response'', JStr ''OK'')],
                     res_Error = ''''\<rparr>,
               None, instance, sleep 200 w))
      | _ \<Rightarrow> (None, Some ''url not specified for HTTP request'', instance, w))"

definition executeSendEmail :: "WorkflowInstance \<Rightarrow> WorkflowStepDefinition \<Rightarrow> world \<Rightarrow> step_return" where
  "executeSendEmail instance stepDef w =
     (case map_of (def_Config stepDef) ''to'' of
        Some (JStr to) \<Rightarrow>
          (let subject = (case map_of (def_Config stepDef) ''subject'' of
                            Some (JStr s) \<Rightarrow> s
                          | _ \<Rightarrow> '''')
           in (Some \<lparr>res_Success = True,
                     res_Data = [(''to'', JStr to), (''subject'', JStr subject), (''sent'', JBool True)],
                     res_Error = ''''\<rparr>,
               None, instance, sleep 100 w))
      | _ \<Rightarrow> (None, Some ''to address not specified for email'', instance, w))"

definition executeLogMessage :: "WorkflowInstance \<Rightarrow> WorkflowStepDefinition \<Rightarrow> world \<Rightarrow> step_return" where
  "executeLogMessage instance stepDef w =
     (case map_of (def_Config stepDef) ''message'' of
        Some (JStr message) \<Rightarrow>
          (let level = (case map_of (def_Config stepDef) ''level'' of
                          Some (JStr l) \<Rightarrow> l
                        | _ \<Rightarrow> ''info'')
           in (Some \<lparr>res_Success = True,
                     res_Data = [(''message'', JStr message), (''level'', JStr level), (''logged'', JBool True)],
                     res_Error = ''''\<rparr>,
               None, instance, w))
      | _ \<Rightarrow> (None, Some ''message not specified for log action'', instance, w))"

text \<open>
  \<^verbatim>\<open>executeUpdateVariables\<close> writes the updates into the instance held in memory first and
  into the store afterwards; the bindings of \<open>updates\<close> shadow those of the variables.
\<close>

definition executeUpdateVariables :: "WorkflowInstance \<Rightarrow> WorkflowStepDefinition \<Rightarrow> world \<Rightarrow> step_return" where
  "executeUpdateVariables instance stepDef w =
     (case map_of (def_Config stepDef) ''updates'' of
        Some (JObj updates) \<Rightarrow>
          (let instance' = instance\<lparr>inst_Variables := updates @ inst_Variables instance\<rparr>
           in case update_instance (inst_ID instance)
                     (\<lambda>row. row\<lparr>inst_Variables := inst_Variables instance'\<rparr>) w of
                (Some err, w1) \<Rightarrow> (None, Some (''failed to update variables: '' @ err), instance', w1)
              | (None, w1) \<Rightarrow>
                  (Some \<lparr>res_Success = True,
                         res_Data = [(''updated_variables'', JObj updates)],
                         res_Error = ''''\<rparr>,
                   None, instance', w1))
      | _ \<Rightarrow> (None, Some ''updates not specified for update variables action'', instance, w))"

definition executeActionStep :: "WorkflowInstance \<Rightarrow> WorkflowStepDefinition \<Rightarrow> world \<Rightarrow> step_return" where
  "executeActionStep instance stepDef w =
     (case map_of (def_Config stepDef) ''action'' of
        Some (JStr action) \<Rightarrow>
          if action = ''http_request'' then executeHTTPRequest instance stepDef w
          else if action = ''send_email'' then executeSendEmail instance stepDef w
          else if action = ''log_message'' then executeLogMessage instance stepDef w
          else if action = ''update_variables'' then executeUpdateVariables instance stepDef w
          else (None, Some (''unsupported action: '' @ action), instance, w)
      | _ \<Rightarrow> (None, Some ''action not specified in step config'', instance, w))"

text \<open>\<^verbatim>\<open>fmt.Sprintf("%d", i)\<close> for a non-negative \<open>i\<close>.\<close>

fun show_nat :: "nat \<Rightarrow> string" where
  "show_nat n =
     (if n < 10 then [''0123456789'' ! n]
      else show_nat (n div 10) @ [''0123456789'' ! (n mod 10)])"

declare show_nat.simps [simp del]

text \<open>
  The loop of \<^verbatim>\<open>executeParallelStep\<close> over the sub-steps, from index \<open>i\<close>: a sleep of
  100 ms and one entry \<^verbatim>\<open>parallel_<i>\<close> in the result map for each.
\<close>

fun parallel_loop :: "nat \<Rightarrow> json list \<Rightarrow> JSONB \<Rightarrow> world \<Rightarrow> JSONB \<times> world" where
  "parallel_loop i [] results w = (results, w)"
| "parallel_loop i (parallelStepData # rest) results w =
     parallel_loop (Suc i) rest
       ((''parallel_'' @ show_nat i,
         JObj [(''status'', JStr ''completed''), (''data'', parallelStepData)]) # results)
       (sleep 100 w)"

definition executeParallelStep :: "WorkflowInstance \<Rightarrow> WorkflowStepDefinition \<Rightarrow> world \<Rightarrow> step_return" where
  "executeParallelStep instance stepDef w =
     (case map_of (def_Config stepDef) ''parallel_steps'' of
        Some (JArr parallelSteps) \<Rightarrow>
          (let allSuccess = True;
               (results, w1) = parallel_loop 0 parallelSteps [] w
           in (Some \<lparr>res_Success = allSuccess, res_Data = results, res_Error = ''''\<rparr>,
               None, instance, w1))
      | _ \<Rightarrow> (None, Some ''parallel_steps not defined'', instance, w))"

text \<open>
  \<^verbatim>\<open>time.Duration(durationSec) * time.Second\<close> drops the fraction of the seconds; a
  duration that is not positive does not sleep. (The overflow of the multiplication for
  durations beyond 292 years is left out.)
\<close>

definition executeWaitStep :: "WorkflowInstance \<Rightarrow> WorkflowStepDefinition \<Rightarrow> world \<Rightarrow> step_return" where
  "executeWaitStep instance stepDef w =
     (case map_of (def_Config stepDef) ''wait_type'' of
        Some (JStr waitType) \<Rightarrow>
          if waitType = ''duration'' then
            (case map_of (def_Config stepDef) ''duration'' of
               Some (JNum durationSec) \<Rightarrow>
                 (Some \<lparr>res_Success = True, res_Data = [(''waited'', JNum durationSec)], res_Error = ''''\<rparr>,
                  None, instance, sleep (\<lfloor>durationSec\<rfloor> * 1000) w)
             | _ \<Rightarrow> (None, Some ''duration not specified for duration wait'', instance, w))
          else if waitType = ''event'' then
            (case map_of (def_Config stepDef) ''event'' of
               Some (JStr eventName) \<Rightarrow>
                 (Some \<lparr>res_Success = True, res_Data = [(''event'', JStr eventName)], res_Error = ''''\<rparr>,
                  None, instance, sleep 1000 w)
             | _ \<Rightarrow> (None, Some ''event not specified for event wait'', instance, w))
          else (None, Some (''unsupported wait type: '' @ waitType), instance, w)
      | _ \<Rightarrow> (None, Some ''wait_type not specified'', instance, w))"

definition executeSubflowStep :: "WorkflowInstance \<Rightarrow> WorkflowStepDefinition \<Rightarrow> world \<Rightarrow> step_return" where
  "executeSubflowStep instance stepDef w =
     (case map_of (def_Config stepDef) ''subflow_id'' of
        Some (JStr subflowID) \<Rightarrow>
          (Some \<lparr>res_Success = True,
                 res_Data = [(''subflow_id'', JStr subflowID), (''status'', JStr ''completed'')],
                 res_Error = ''''\<rparr>,
           None, instance, sleep 500 w)
      | _ \<Rightarrow> (None, Some ''subflow_id not specified'', instance, w))"

text \<open>
  How a call that works on the world ends: it returns a value, or it panics (the process
  dies; the store keeps what was written before), or, for the orchestration loop below, the
  observation stops while the worker is still running. Each outcome carries the world as
  the call left it.
\<close>

datatype 'a run = Returns 'a world | Panics string world | StillRunning world

fun world_of :: "'a run \<Rightarrow> world" where
  "world_of (Returns x w) = w"
| "world_of (Panics m w) = w"
| "world_of (StillRunning w) = w"

definition returned :: "step_return \<Rightarrow> (StepResult option \<times> error option \<times> WorkflowInstance) run" where
  "returned r = (case r of (result, err, instance, w) \<Rightarrow> Returns (result, err, instance) w)"

text \<open>The \<^verbatim>\<open>switch stepDef.Type\<close> of \<^verbatim>\<open>ExecuteStep\<close>.\<close>

definition execute_by_type ::
  "WorkflowInstance \<Rightarrow> WorkflowStepDefinition \<Rightarrow> world
     \<Rightarrow> (StepResult option \<times> error option \<times> WorkflowInstance) run" where
  "execute_by_type instance stepDef w =
     (if def_Type stepDef = StepTypeAction then returned (executeActionStep instance stepDef w)
      else if def_Type stepDef = StepTypeCondition then
        (case executeConditionStep instance stepDef of
           Panic m \<Rightarrow> Panics m w
         | Ret (result, err) \<Rightarrow> Returns (result, err, instance) w)
      else if def_Type stepDef = StepTypeParallel then returned (executeParallelStep instance stepDef w)
      else if def_Type stepDef = StepTypeWait then returned (executeWaitStep instance stepDef w)
      else if def_Type stepDef = StepTypeSubflow then returned (executeSubflowStep instance stepDef w)
      else Returns (None, Some (''unsupported step type: '' @ def_Type stepDef), instance) w)"

text \<open>
  The tail of \<^verbatim>\<open>ExecuteStep\<close>, from \<^verbatim>\<open>// Update step with result\<close>: the step row is
  finalised and saved (a failed save is only logged), the event is published, and the
  result and the error are returned.
\<close>

definition finish_step ::
  "WorkflowStepDefinition \<Rightarrow> WorkflowStep \<Rightarrow> StepResult option \<Rightarrow> error option
     \<Rightarrow> WorkflowInstance \<Rightarrow> world \<Rightarrow> (StepResult option \<times> error option \<times> WorkflowInstance) run" where
  "finish_step stepDef step result err instance w =
     (let completedAt = clock w;
          step1 = step\<lparr>step_CompletedAt := Some completedAt\<rparr>;
          (step2, result') =
            (case err of
               Some e \<Rightarrow>
                 (step1\<lparr>step_Status := StepStatusFailed,
                        step_ErrorData := Some [(''error'', JStr e)]\<rparr>,
                  Some \<lparr>res_Success = False, res_Data = [], res_Error = e\<rparr>)
             | None \<Rightarrow>
                 (case result of
                    Some res \<Rightarrow>
                      (step1\<lparr>step_Status := StepStatusCompleted, step_OutputData := res_Data res\<rparr>, result)
                  | None \<Rightarrow> (step1\<lparr>step_Status := StepStatusCompleted\<rparr>, result)));
          w1 = snd (save_step step2 w);
          w2 = publishStepEvent ''step_completed'' (inst_ID instance) (def_ID stepDef) result' w1
      in Returns (result', err, instance) w2)"

definition ExecuteStep ::
  "WorkflowInstance \<Rightarrow> WorkflowStepDefinition \<Rightarrow> world
     \<Rightarrow> (StepResult option \<times> error option \<times> WorkflowInstance) run" where
  "ExecuteStep instance stepDef w =
     (case createOrUpdateStep (inst_ID instance) stepDef w of
        (Inl err, w1) \<Rightarrow> Returns (None, Some (''failed to create step record: '' @ err), instance) w1
      | (Inr step0, w1) \<Rightarrow>
          (let now = clock w1;
               step = step0\<lparr>step_Status := StepStatusRunning, step_StartedAt := Some now\<rparr>
           in case save_step step w1 of
                (Some err, w2) \<Rightarrow>
                  Returns (None, Some (''failed to update step status: '' @ err), instance) w2
              | (None, w2) \<Rightarrow>
                  (let w3 = w2\<lparr>exec_log := exec_log w2 @ [(inst_ID instance, def_ID stepDef)]\<rparr>
                   in case execute_by_type instance stepDef w3 of
                        Returns (result, err, instance') w4 \<Rightarrow>
                          finish_step stepDef step result err instance' w4
                      | Panics m w4 \<Rightarrow> Panics m w4
                      | StillRunning w4 \<Rightarrow> StillRunning w4)))"

text \<open>
  \<^verbatim>\<open>HandleStepTimeout\<close>. The local \<^verbatim>\<open>retryPolicy\<close> is declared and never assigned
  (``in a real implementation, you would load this from the step definition''), so it is nil
  at the test.
\<close>

definition HandleStepTimeout :: "WorkflowStep \<Rightarrow> world \<Rightarrow> world" where
  "HandleStepTimeout step w =
     (let retryPolicy = (None :: RetryPolicy option)
      in if retryPolicy \<noteq> None \<and> step_RetryCount step < rp_MaxRetries (the retryPolicy) then
           snd (save_step (step\<lparr>step_RetryCount := step_RetryCount step + 1,
                                step_Status := StepStatusPending,
                                step_StartedAt := None,
                                step_CompletedAt := None,
                                step_ErrorData := None\<rparr>) w)
         else
           (let now = clock w
            in snd (save_step (step\<lparr>step_Status := StepStatusFailed,
                                    step_CompletedAt := Some now,
                                    step_ErrorData := Some [(''error'', JStr ''step timed out'')]\<rparr>) w)))"

text \<open>
  \<^verbatim>\<open>checkTimeouts\<close> (engine): every step row in \<^verbatim>\<open>running\<close> status whose \<^verbatim>\<open>started_at\<close>
  is older than the configured timeout is handed to \<^verbatim>\<open>HandleStepTimeout\<close>.
\<close>

definition checkTimeouts :: "Config \<Rightarrow> world \<Rightarrow> world" where
  "checkTimeouts cfg w =
     (let timeout = clock w - StepTimeout cfg * 1000
      in case db_call w of
           (Some err, w1) \<Rightarrow> w1
         | (None, w1) \<Rightarrow>
             fold HandleStepTimeout
               (filter (\<lambda>r. step_Status r = StepStatusRunning \<and>
                             (case step_StartedAt r of Some t \<Rightarrow> t < timeout | None \<Rightarrow> False))
                  (steps w1))
               w1)"

section \<open>The orchestration loop (engine)\<close>

definition findStepDefinition :: "WorkflowStepDefinition list \<Rightarrow> string \<Rightarrow> WorkflowStepDefinition option" where
  "findStepDefinition stepDefs stepID = find (\<lambda>step. def_ID step = stepID) stepDefs"

text \<open>
  \<^verbatim>\<open>determineNextStep\<close>. The result is a pointer: it is read only on the path of a
  condition step with two or more next steps, and reading a nil result panics.
\<close>

definition determineNextStep ::
  "WorkflowStepDefinition \<Rightarrow> StepResult option \<Rightarrow> (string \<times> error option) go" where
  "determineNextStep stepDef result =
     (if length (def_NextSteps stepDef) = 0 then Ret ('''', None)
      else if length (def_NextSteps stepDef) = 1 then Ret (def_NextSteps stepDef ! 0, None)
      else if def_Type stepDef = StepTypeCondition then
        (case result of
           None \<Rightarrow> Panic ''runtime error: invalid memory address or nil pointer dereference''
         | Some r \<Rightarrow>
             if res_Success r then
               (if length (def_NextSteps stepDef) > 0 then Ret (def_NextSteps stepDef ! 0, None)
                else Ret (def_NextSteps stepDef ! 0, None))
             else
               (if length (def_NextSteps stepDef) > 1 then Ret (def_NextSteps stepDef ! 1, None)
                else Ret (def_NextSteps stepDef ! 0, None)))
      else Ret (def_NextSteps stepDef ! 0, None))"

definition checkInstanceStatus :: "uuid \<Rightarrow> world \<Rightarrow> error option \<times> world" where
  "checkInstanceStatus instanceID w =
     (case db_call w of
        (Some err, w1) \<Rightarrow> (Some err, w1)
      | (None, w1) \<Rightarrow>
          (case instances w1 instanceID of
             None \<Rightarrow> (Some ''record not found'', w1)
           | Some instance \<Rightarrow>
               if inst_Status instance \<noteq> WorkflowStatusRunning then
                 (Some (''workflow instance status changed to '' @ inst_Status instance), w1)
               else (None, w1)))"

definition updateInstanceCurrentStep :: "uuid \<Rightarrow> string \<Rightarrow> world \<Rightarrow> error option \<times> world" where
  "updateInstanceCurrentStep instanceID stepID w =
     update_instance instanceID (\<lambda>row. row\<lparr>inst_CurrentStep := stepID\<rparr>) w"

definition completeInstance :: "uuid \<Rightarrow> world \<Rightarrow> error option \<times> world" where
  "completeInstance instanceID w =
     (let now = clock w
      in update_instance instanceID
           (\<lambda>row. row\<lparr>inst_Status := WorkflowStatusCompleted, inst_CompletedAt := Some now\<rparr>) w)"

definition failInstance :: "uuid \<Rightarrow> string \<Rightarrow> world \<Rightarrow> world" where
  "failInstance instanceID errorMsg w =
     (let now = clock w
      in snd (update_instance instanceID
           (\<lambda>row. row\<lparr>inst_Status := WorkflowStatusFailed,
                       inst_CompletedAt := Some now,
                       inst_ErrorMessage := errorMsg\<rparr>) w))"

subsection \<open>What other actors do while a worker waits between two steps\<close>

text \<open>
  The handlers \<^verbatim>\<open>PauseInstance\<close> and \<^verbatim>\<open>CancelInstance\<close> of
  \<^verbatim>\<open>handlers/instance.go\<close> (their effect on the store; the HTTP response is left out),
  and \<^verbatim>\<open>Engine.Stop\<close>, which cancels the context.
\<close>

definition PauseInstance :: "uuid \<Rightarrow> world \<Rightarrow> world" where
  "PauseInstance instanceID w =
     (case db_call w of
        (Some err, w1) \<Rightarrow> w1
      | (None, w1) \<Rightarrow>
          (case instances w1 instanceID of
             None \<Rightarrow> w1
           | Some instance \<Rightarrow>
               if inst_Status instance \<noteq> WorkflowStatusRunning then w1
               else (case db_call w1 of
                       (Some err, w2) \<Rightarrow> w2
                     | (None, w2) \<Rightarrow>
                         w2\<lparr>instances := (instances w2)(instanceID \<mapsto>
                              instance\<lparr>inst_Status := WorkflowStatusPaused\<rparr>)\<rparr>)))"

definition CancelInstance :: "uuid \<Rightarrow> world \<Rightarrow> world" where
  "CancelInstance instanceID w =
     (case db_call w of
        (Some err, w1) \<Rightarrow> w1
      | (None, w1) \<Rightarrow>
          (case instances w1 instanceID of
             None \<Rightarrow> w1
           | Some instance \<Rightarrow>
               if inst_Status instance = WorkflowStatusCompleted
                  \<or> inst_Status instance = WorkflowStatusFailed
                  \<or> inst_Status instance = WorkflowStatusCancelled then w1
               else (let now = clock w1
                     in case db_call w1 of
                          (Some err, w2) \<Rightarrow> w2
                        | (None, w2) \<Rightarrow>
                            w2\<lparr>instances := (instances w2)(instanceID \<mapsto>
                                 instance\<lparr>inst_Status := WorkflowStatusCancelled,
                                          inst_CompletedAt := Some now\<rparr>)\<rparr>)))"

datatype external = NoRequest | PauseRequest uuid | CancelRequest uuid | StopEngine

fun interfere :: "external \<Rightarrow> world \<Rightarrow> world" where
  "interfere NoRequest w = w"
| "interfere (PauseRequest instanceID) w = PauseInstance instanceID w"
| "interfere (CancelRequest instanceID) w = CancelInstance instanceID w"
| "interfere StopEngine w = w\<lparr>ctx_done := True\<rparr>"

fun next_external :: "external list \<Rightarrow> external" where
  "next_external [] = NoRequest"
| "next_external (x # xs) = x"

subsection \<open>executeWorkflow and processInstance\<close>

text \<open>
  The \<^verbatim>\<open>for\<close> loop of \<^verbatim>\<open>executeWorkflow\<close>. A schema may send the loop round a cycle of
  steps for ever, so the loop carries fuel, one unit for each iteration; when the fuel
  runs out before the loop has returned, the outcome is \<open>StillRunning\<close> with the world
  at the start of the iteration that was not begun. \<open>env\<close> lists what other actors do
  during the successive inter-step delays (the \<^verbatim>\<open>select\<close> at the end of the body).
\<close>

fun executeWorkflow_loop ::
  "nat \<Rightarrow> external list \<Rightarrow> WorkflowInstance \<Rightarrow> WorkflowSchema \<Rightarrow> string \<Rightarrow> world
     \<Rightarrow> error option run" where
  "executeWorkflow_loop 0 env instance schema currentStepID w = StillRunning w"
| "executeWorkflow_loop (Suc fuel) env instance schema currentStepID w =
     (case checkInstanceStatus (inst_ID instance) w of
        (Some err, w1) \<Rightarrow> Returns (Some err) w1
      | (None, w1) \<Rightarrow>
          (case findStepDefinition (Steps schema) currentStepID of
             None \<Rightarrow> Returns (Some (''step definition not found: '' @ currentStepID)) w1
           | Some stepDef \<Rightarrow>
               (case ExecuteStep instance stepDef w1 of
                  Panics m w2 \<Rightarrow> Panics m w2
                | StillRunning w2 \<Rightarrow> StillRunning w2
                | Returns (stepResult, Some err, instance') w2 \<Rightarrow>
                    Returns (Some (''step execution failed: '' @ err)) w2
                | Returns (stepResult, None, instance') w2 \<Rightarrow>
                    (let w3 = snd (updateInstanceCurrentStep (inst_ID instance) currentStepID w2)
                     in case determineNextStep stepDef stepResult of
                          Panic m \<Rightarrow> Panics m w3
                        | Ret (nextStepID, Some err) \<Rightarrow>
                            Returns (Some (''failed to determine next step: '' @ err)) w3
                        | Ret (nextStepID, None) \<Rightarrow>
                            if nextStepID = '''' then
                              (case completeInstance (inst_ID instance) w3 of
                                 (err, w4) \<Rightarrow> Returns err w4)
                            else
                              (let w4 = interfere (next_external env) w3
                               in if ctx_done w4 then
                                    Returns (Some ''workflow engine shutting down'') w4
                                  else
                                    executeWorkflow_loop fuel (tl env) instance' schema nextStepID
                                      (sleep 100 w4))))))"

definition executeWorkflow ::
  "nat \<Rightarrow> external list \<Rightarrow> WorkflowInstance \<Rightarrow> WorkflowSchema \<Rightarrow> world \<Rightarrow> error option run" where
  "executeWorkflow fuel env instance schema w =
     (case Steps schema of
        [] \<Rightarrow> (case completeInstance (inst_ID instance) w of (err, w1) \<Rightarrow> Returns err w1)
      | first # others \<Rightarrow>
          (let currentStepID =
                 (if inst_CurrentStep instance = '''' then def_ID first else inst_CurrentStep instance)
           in executeWorkflow_loop fuel env instance schema currentStepID w))"

text \<open>
  \<^verbatim>\<open>parseSchema\<close> on the template that \<^verbatim>\<open>Preload("Template")\<close> attached to the instance.
  Without a template row the instance carries the zero template, whose nil schema encodes
  to \<^verbatim>\<open>null\<close> and decodes, without error, to a schema of no steps.
\<close>

definition parseSchema :: "WorkflowTemplate option \<Rightarrow> error + WorkflowSchema" where
  "parseSchema template =
     (case template of None \<Rightarrow> Inr \<lparr>Steps = []\<rparr> | Some t \<Rightarrow> tmpl_Schema t)"

text \<open>
  \<^verbatim>\<open>processInstance\<close> from \<^verbatim>\<open>// Load instance with template\<close> to its return; what it does
  to the engine's set of running instances on entry and on exit is in the scheduler below.
\<close>

definition processInstance :: "nat \<Rightarrow> external list \<Rightarrow> uuid \<Rightarrow> world \<Rightarrow> unit run" where
  "processInstance fuel env instanceID w =
     (case db_call w of
        (Some err, w1) \<Rightarrow> Returns () w1
      | (None, w1) \<Rightarrow>
          (case instances w1 instanceID of
             None \<Rightarrow> Returns () w1
           | Some instance \<Rightarrow>
               if inst_Status instance \<noteq> WorkflowStatusRunning then Returns () w1
               else
                 (case parseSchema (templates w1 (inst_TemplateID instance)) of
                    Inl err \<Rightarrow>
                      Returns () (failInstance instanceID (''Invalid workflow schema: '' @ err) w1)
                  | Inr schema \<Rightarrow>
                      (case executeWorkflow fuel env instance schema w1 of
                         StillRunning w2 \<Rightarrow> StillRunning w2
                       | Panics m w2 \<Rightarrow> Panics m w2
                       | Returns (Some err) w2 \<Rightarrow> Returns () (failInstance instanceID err w2)
                       | Returns None w2 \<Rightarrow> Returns () w2))))"

section \<open>The scheduler (engine)\<close>

text \<open>
  The engine's channel \<^verbatim>\<open>queue\<close> (buffered, capacity \<^verbatim>\<open>MaxConcurrentWorkflows\<close>), its
  \<^verbatim>\<open>sync.Map\<close> of running instances, and the goroutines that \<^verbatim>\<open>processQueue\<close> started
  with \<^verbatim>\<open>go e.processInstance(instanceID)\<close>, in the order of their start. A goroutine is
  \<open>Spawned\<close> until it has executed \<^verbatim>\<open>e.instances.Store(instanceID, true)\<close>, its first
  statement; then it is \<open>Marked\<close> while it runs the body (\<^const>\<open>processInstance\<close>
  above); it is \<open>Exited\<close> once the body has returned and the deferred
  \<^verbatim>\<open>e.instances.Delete(instanceID)\<close> has run.
\<close>

datatype phase = Spawned | Marked | Exited

record engine =
  eng_queue :: "uuid list"
  eng_cap :: nat
  eng_instances :: "uuid set"
  eng_workers :: "(uuid \<times> phase) list"

definition NewEngine :: "Config \<Rightarrow> engine" where
  "NewEngine cfg =
     \<lparr>eng_queue = [], eng_cap = MaxConcurrentWorkflows cfg, eng_instances = {}, eng_workers = []\<rparr>"

definition QueueInstance :: "uuid \<Rightarrow> engine \<Rightarrow> error option \<times> engine" where
  "QueueInstance instanceID e =
     (if length (eng_queue e) < eng_cap e
      then (None, e\<lparr>eng_queue := eng_queue e @ [instanceID]\<rparr>)
      else (Some ''workflow queue is full'', e))"

text \<open>One iteration of the loop of \<^verbatim>\<open>processQueue\<close> that receives from the queue.\<close>

definition processQueue :: "engine \<Rightarrow> engine" where
  "processQueue e =
     (case eng_queue e of
        [] \<Rightarrow> e
      | instanceID # rest \<Rightarrow>
          (let e1 = e\<lparr>eng_queue := rest\<rparr>
           in if instanceID \<in> eng_instances e1 then e1
              else e1\<lparr>eng_workers := eng_workers e1 @ [(instanceID, Spawned)]\<rparr>))"

text \<open>The two control points of the goroutine number \<open>i\<close>.\<close>

definition processInstance_store :: "nat \<Rightarrow> engine \<Rightarrow> engine" where
  "processInstance_store i e =
     (if i < length (eng_workers e) \<and> snd (eng_workers e ! i) = Spawned then
        e\<lparr>eng_instances := insert (fst (eng_workers e ! i)) (eng_instances e),
          eng_workers := (eng_workers e)[i := (fst (eng_workers e ! i), Marked)]\<rparr>
      else e)"

definition processInstance_exit :: "nat \<Rightarrow> engine \<Rightarrow> engine" where
  "processInstance_exit i e =
     (if i < length (eng_workers e) \<and> snd (eng_workers e ! i) = Marked then
        e\<lparr>eng_instances := eng_instances e - {fst (eng_workers e ! i)},
          eng_workers := (eng_workers e)[i := (fst (eng_workers e ! i), Exited)]\<rparr>
      else e)"

text \<open>
  An execution of the engine is an interleaving of these atomic steps: a producer calls
  \<^verbatim>\<open>QueueInstance\<close>, the dispatcher receives one id, a goroutine passes one of its control
  points. The Go scheduler may order the steps of different goroutines in any way.
\<close>

datatype sched_step = Enqueue uuid | Dispatch | Store nat | Exit nat

fun engine_step :: "sched_step \<Rightarrow> engine \<Rightarrow> engine" where
  "engine_step (Enqueue instanceID) e = snd (QueueInstance instanceID e)"
| "engine_step Dispatch e = processQueue e"
| "engine_step (Store i) e = processInstance_store i e"
| "engine_step (Exit i) e = processInstance_exit i e"

definition run_engine :: "sched_step list \<Rightarrow> engine \<Rightarrow> engine" where
  "run_engine schedule e = fold engine_step schedule e"

text \<open>The goroutines running \<^verbatim>\<open>processInstance\<close> for an instance id that have not exited.\<close>

definition active_workers :: "uuid \<Rightarrow> engine \<Rightarrow> nat" where
  "active_workers instanceID e =
     length (filter (\<lambda>(i, p). i = instanceID \<and> p \<noteq> Exited) (eng_workers e))"

section \<open>What the claims compare the code with\<close>

text \<open>
  The conjunction of a list of predicates over the variables, as the specification words
  the outcome of a condition step: every predicate evaluates to true. Over the empty list
  it holds.
\<close>

definition all_predicates_hold :: "StepCondition list \<Rightarrow> JSONB \<Rightarrow> bool" where
  "all_predicates_hold conditions variables =
     list_all (\<lambda>c. evaluateCondition c variables = Ret True) conditions"

text \<open>The row of the steps table for a step definition of an instance, as \<^verbatim>\<open>First\<close> finds it.\<close>

definition step_record :: "uuid \<Rightarrow> string \<Rightarrow> world \<Rightarrow> WorkflowStep option" where
  "step_record instanceID stepID w =
     find (\<lambda>r. step_InstanceID r = instanceID \<and> step_StepID r = stepID) (steps w)"

text \<open>
  What the work of a step type leaves alone: the steps table, the execution log, the
  published events, the context and the templates; and a store that does not fail keeps
  not failing.
\<close>

definition frame :: "world \<Rightarrow> world \<Rightarrow> bool" where
  "frame w w' \<longleftrightarrow> steps w' = steps w \<and> exec_log w' = exec_log w \<and> published w' = published w
     \<and> ctx_done w' = ctx_done w \<and> templates w' = templates w \<and> (faults w = [] \<longrightarrow> faults w' = [])"

text \<open>How \<^verbatim>\<open>HandleStepTimeout\<close> leaves a step row that it fails at time \<open>now\<close>.\<close>

definition timed_out_row :: "time \<Rightarrow> WorkflowStep \<Rightarrow> WorkflowStep" where
  "timed_out_row now r =
     r\<lparr>step_Status := StepStatusFailed,
       step_CompletedAt := Some now,
       step_ErrorData := Some [(''error'', JStr ''step timed out'')]\<rparr>"

text \<open>The rows that \<^verbatim>\<open>checkTimeouts\<close> selects: running, and started before the deadline.\<close>

definition past_timeout :: "Config \<Rightarrow> time \<Rightarrow> WorkflowStep \<Rightarrow> bool" where
  "past_timeout cfg now r \<longleftrightarrow>
     step_Status r = StepStatusRunning \<and>
     (case step_StartedAt r of Some t \<Rightarrow> t < now - StepTimeout cfg * 1000 | None \<Rightarrow> False)"

subsection \<open>Sample workflows\<close>

text \<open>Step definitions and a store with one running instance, for the concrete runs below.\<close>

definition log_step :: "string \<Rightarrow> string list \<Rightarrow> WorkflowStepDefinition" where
  "log_step stepID next =
     \<lparr>def_ID = stepID, def_Name = ''log'', def_Type = StepTypeAction,
      def_Config = [(''action'', JStr ''log_message''), (''message'', JStr ''hello'')],
      def_NextSteps = next, def_Conditions = [], def_RetryPolicy = None\<rparr>"

definition x_gt_5_step :: "string \<Rightarrow> string list \<Rightarrow> WorkflowStepDefinition" where
  "x_gt_5_step stepID next =
     \<lparr>def_ID = stepID, def_Name = ''check'', def_Type = StepTypeCondition, def_Config = [],
      def_NextSteps = next,
      def_Conditions = [\<lparr>cond_Field = ''x'', cond_Operator = ''gt'', cond_Value = JNum 5\<rparr>],
      def_RetryPolicy = None\<rparr>"

definition wait_event_step :: "string \<Rightarrow> string list \<Rightarrow> WorkflowStepDefinition" where
  "wait_event_step stepID next =
     \<lparr>def_ID = stepID, def_Name = ''wait'', def_Type = StepTypeWait,
      def_Config = [(''wait_type'', JStr ''event''), (''event'', JStr ''approved'')],
      def_NextSteps = next, def_Conditions = [],
      def_RetryPolicy = Some \<lparr>rp_MaxRetries = 3, rp_Delay = 1\<rparr>\<rparr>"

definition running_instance :: "JSONB \<Rightarrow> WorkflowInstance" where
  "running_instance variables =
     \<lparr>inst_ID = 1, inst_TemplateID = 7, inst_Status = WorkflowStatusRunning, inst_Context = [],
      inst_Variables = variables, inst_CurrentStep = '''', inst_StartedAt = Some 0,
      inst_CompletedAt = None, inst_ErrorMessage = ''''\<rparr>"

definition sample_world :: "JSONB \<Rightarrow> WorkflowStepDefinition list \<Rightarrow> world" where
  "sample_world variables stepDefs =
     \<lparr>instances = [1 \<mapsto> running_instance variables],
      templates = [7 \<mapsto> \<lparr>tmpl_ID = 7, tmpl_Schema = Inr \<lparr>Steps = stepDefs\<rparr>\<rparr>],
      steps = [], published = [], exec_log = [], clock = 0, faults = [], ctx_done = False\<rparr>"

text \<open>A condition step that compares the variable \<^verbatim>\<open>x\<close> with an empty array.\<close>

definition x_eq_array_step :: "string \<Rightarrow> string list \<Rightarrow> WorkflowStepDefinition" where
  "x_eq_array_step stepID next =
     \<lparr>def_ID = stepID, def_Name = ''check'', def_Type = StepTypeCondition, def_Config = [],
      def_NextSteps = next,
      def_Conditions = [\<lparr>cond_Field = ''x'', cond_Operator = ''eq'', cond_Value = JArr []\<rparr>],
      def_RetryPolicy = None\<rparr>"

text \<open>
  The store as a worker leaves it when it is stopped after one iteration on the workflow
  \<^verbatim>\<open>A\<close>, then \<^verbatim>\<open>B\<close>: step \<^verbatim>\<open>A\<close> completed, \<^verbatim>\<open>current_step = A\<close> persisted, the instance
  still \<^verbatim>\<open>running\<close>; and the instance as a restarted worker loads it.
\<close>

definition interrupted_instance :: WorkflowInstance where
  "interrupted_instance = (running_instance [])\<lparr>inst_CurrentStep := ''A''\<rparr>"

definition interrupted_world :: world where
  "interrupted_world =
     (sample_world [] [log_step ''A'' [''B''], log_step ''B'' []])
       \<lparr>instances := [1 \<mapsto> interrupted_instance],
        steps := [\<lparr>step_ID = 1, step_InstanceID = 1, step_StepID = ''A'',
                   step_StepType = StepTypeAction, step_Status = StepStatusCompleted,
                   step_InputData = [(''action'', JStr ''log_message''), (''message'', JStr ''hello'')],
                   step_OutputData = [(''message'', JStr ''hello''), (''level'', JStr ''info''),
                                      (''logged'', JBool True)],
                   step_ErrorData = None, step_StartedAt = Some 0, step_CompletedAt = Some 0,
                   step_RetryCount = 0\<rparr>],
        published := [\<lparr>ev_type = ''step_completed'', ev_instance_id = 1, ev_step_id = ''A'',
                       ev_timestamp = 0, ev_success = Some True, ev_error = None\<rparr>],
        exec_log := [(1, ''A'')],
        clock := 100\<rparr>"

text \<open>
  A store in which the step \<^verbatim>\<open>W\<close> of the running instance has been in \<^verbatim>\<open>running\<close> status
  since time 0, read at 400 s with a step timeout of 300 s.
\<close>

definition stuck_step :: WorkflowStep where
  "stuck_step =
     \<lparr>step_ID = 1, step_InstanceID = 1, step_StepID = ''W'', step_StepType = StepTypeWait,
      step_Status = StepStatusRunning, step_InputData = [], step_OutputData = [],
      step_ErrorData = None, step_StartedAt = Some 0, step_CompletedAt = None,
      step_RetryCount = 0\<rparr>"

definition stuck_world :: world where
  "stuck_world = (sample_world [] [wait_event_step ''W'' []])\<lparr>steps := [stuck_step], clock := 400000\<rparr>"

definition sample_config :: Config where
  "sample_config =
     \<lparr>MaxConcurrentWorkflows = 100, WorkflowCheckInterval = 10, StepRetryLimit = 3, StepTimeout = 300\<rparr>"

section \<open>Condition steps\<close>

lemma evaluateCondition_absent:
  "map_of variables (cond_Field c) = None \<Longrightarrow> evaluateCondition c variables = Ret False"
  by (simp add: evaluateCondition_def)

lemma conditions_loop_first_false:
  "\<forall>p \<in> set pre. evaluateCondition p variables = Ret True \<Longrightarrow>
   evaluateCondition c variables = Ret False \<Longrightarrow>
   conditions_loop (pre @ c # post) variables =
     Ret (Some \<lparr>res_Success = False, res_Data = [(''reason'', JStr ''condition not met'')],
                res_Error = ''''\<rparr>, None)"
  by (induction pre) simp_all

lemma conditions_loop_no_panic:
  "\<forall>c \<in> set conds. \<exists>b. evaluateCondition c variables = Ret b \<Longrightarrow>
   \<exists>r. conditions_loop conds variables = Ret (Some r, None) \<and>
       res_Success r = (\<forall>c \<in> set conds. evaluateCondition c variables = Ret True)"
proof (induction conds)
  case Nil
  then show ?case by simp
next
  case (Cons c conds)
  then obtain b where b: "evaluateCondition c variables = Ret b" by auto
  show ?case
  proof (cases b)
    case True
    with Cons b show ?thesis by simp
  next
    case False
    with b show ?thesis by simp
  qed
qed

lemma conditions_loop_returns:
  "conditions_loop conds variables = Ret (result, err) \<Longrightarrow> result \<noteq> None \<and> err = None"
proof (induction conds)
  case Nil
  then show ?case by auto
next
  case (Cons c conds)
  then show ?case by (auto split: go.splits if_splits)
qed

lemma executeConditionStep_returns:
  "executeConditionStep instance stepDef = Ret (result, err) \<Longrightarrow> result \<noteq> None \<and> err = None"
  unfolding executeConditionStep_def Let_def
  by (auto split: if_splits dest: conditions_loop_returns)

lemma evaluateCondition_gt:
  "cond_Operator c = ''gt'' \<or> cond_Operator c = ''greater_than'' \<Longrightarrow>
   evaluateCondition c variables =
     Ret (\<exists>a b. map_of variables (cond_Field c) = Some (JNum a) \<and> cond_Value c = JNum b \<and> a > b)"
  by (auto simp: evaluateCondition_def split: option.splits json.splits)

lemma evaluateCondition_lt:
  "cond_Operator c = ''lt'' \<or> cond_Operator c = ''less_than'' \<Longrightarrow>
   evaluateCondition c variables =
     Ret (\<exists>a b. map_of variables (cond_Field c) = Some (JNum a) \<and> cond_Value c = JNum b \<and> a < b)"
  by (auto simp: evaluateCondition_def split: option.splits json.splits)

lemma evaluateCondition_contains:
  "cond_Operator c = ''contains'' \<Longrightarrow>
   evaluateCondition c variables =
     Ret (\<exists>a b. map_of variables (cond_Field c) = Some (JStr a) \<and> cond_Value c = JStr b
                \<and> strings_Contains a b)"
  by (auto simp: evaluateCondition_def split: option.splits json.splits)

text \<open>\<^const>\<open>strings_Contains\<close> is substring containment.\<close>

lemma strings_Contains_iff: "strings_Contains s sub \<longleftrightarrow> (\<exists>ps ss. s = ps @ sub @ ss)"
proof (induction s)
  case Nil
  then show ?case by auto
next
  case (Cons c s)
  show ?case
  proof
    assume "strings_Contains (c # s) sub"
    then consider "take (length sub) (c # s) = sub" | "strings_Contains s sub" by auto
    then show "\<exists>ps ss. c # s = ps @ sub @ ss"
    proof cases
      case 1
      then have "c # s = [] @ sub @ drop (length sub) (c # s)"
        by (metis append_Nil append_take_drop_id)
      then show ?thesis by blast
    next
      case 2
      then obtain ps ss where "s = ps @ sub @ ss" using Cons by auto
      then have "c # s = (c # ps) @ sub @ ss" by simp
      then show ?thesis by blast
    qed
  next
    assume "\<exists>ps ss. c # s = ps @ sub @ ss"
    then obtain ps ss where e: "c # s = ps @ sub @ ss" by auto
    show "strings_Contains (c # s) sub"
    proof (cases ps)
      case Nil
      with e have "take (length sub) (c # s) = sub" by simp
      then show ?thesis by simp
    next
      case (Cons p ps')
      with e have "s = ps' @ sub @ ss" by simp
      then show ?thesis using Cons.IH by auto
    qed
  qed
qed

text \<open>
  C7, as the claim states it, fails on the empty list of conditions: the step reports a
  failure (``no conditions defined''), while the conjunction of no predicates holds.
\<close>

theorem condition_step_empty_list_counterexample:
  "executeConditionStep
     \<lparr>inst_ID = 1, inst_TemplateID = 1, inst_Status = ''running'', inst_Context = [],
      inst_Variables = [(''x'', JNum 10)], inst_CurrentStep = '''', inst_StartedAt = None,
      inst_CompletedAt = None, inst_ErrorMessage = ''''\<rparr>
     \<lparr>def_ID = ''B'', def_Name = ''check'', def_Type = ''condition'', def_Config = [],
      def_NextSteps = [''C'', ''D''], def_Conditions = [], def_RetryPolicy = None\<rparr>
   = Ret (Some \<lparr>res_Success = False, res_Data = [], res_Error = ''no conditions defined''\<rparr>, None)
   \<and> all_predicates_hold [] [(''x'', JNum 10)]"
  by (simp add: executeConditionStep_def all_predicates_hold_def)

text \<open>
  C7, amended. A condition step with no conditions returns a failure result with the error
  text ``no conditions defined''. With a non-empty list of conditions none of which panics
  (an \<^verbatim>\<open>eq\<close>/\<^verbatim>\<open>ne\<close> comparison of two arrays or of two objects does), the step returns a result
  and no error, and the result's success is the conjunction of all predicates over the
  instance's variables. A \<^verbatim>\<open>gt\<close>/\<^verbatim>\<open>lt\<close> predicate is true exactly when the variable and the
  condition value are both numbers in that order, and false (not an error) otherwise; a
  \<^verbatim>\<open>contains\<close> predicate is true exactly when both are strings and the second occurs in the
  first.
\<close>

theorem condition_step_success_is_conjunction:
  "(def_Conditions stepDef = [] \<longrightarrow>
      executeConditionStep instance stepDef =
        Ret (Some \<lparr>res_Success = False, res_Data = [], res_Error = ''no conditions defined''\<rparr>, None))
   \<and> (def_Conditions stepDef \<noteq> []
        \<and> (\<forall>c \<in> set (def_Conditions stepDef). \<exists>b. evaluateCondition c (inst_Variables instance) = Ret b) \<longrightarrow>
      (\<exists>r. executeConditionStep instance stepDef = Ret (Some r, None)
           \<and> res_Success r = all_predicates_hold (def_Conditions stepDef) (inst_Variables instance)))
   \<and> (cond_Operator c = ''gt'' \<or> cond_Operator c = ''greater_than'' \<longrightarrow>
      evaluateCondition c variables =
        Ret (\<exists>a b. map_of variables (cond_Field c) = Some (JNum a) \<and> cond_Value c = JNum b \<and> a > b))
   \<and> (cond_Operator c = ''lt'' \<or> cond_Operator c = ''less_than'' \<longrightarrow>
      evaluateCondition c variables =
        Ret (\<exists>a b. map_of variables (cond_Field c) = Some (JNum a) \<and> cond_Value c = JNum b \<and> a < b))
   \<and> (cond_Operator c = ''contains'' \<longrightarrow>
      evaluateCondition c variables =
        Ret (\<exists>a b. map_of variables (cond_Field c) = Some (JStr a) \<and> cond_Value c = JStr b
                   \<and> (\<exists>ps ss. a = ps @ b @ ss)))"
proof -
  have empty: "def_Conditions stepDef = [] \<longrightarrow>
      executeConditionStep instance stepDef =
        Ret (Some \<lparr>res_Success = False, res_Data = [], res_Error = ''no conditions defined''\<rparr>, None)"
    by (simp add: executeConditionStep_def)
  have nonempty: "def_Conditions stepDef \<noteq> []
        \<and> (\<forall>c \<in> set (def_Conditions stepDef). \<exists>b. evaluateCondition c (inst_Variables instance) = Ret b) \<longrightarrow>
      (\<exists>r. executeConditionStep instance stepDef = Ret (Some r, None)
           \<and> res_Success r = all_predicates_hold (def_Conditions stepDef) (inst_Variables instance))"
    using conditions_loop_no_panic [of "def_Conditions stepDef" "inst_Variables instance"]
    by (auto simp: executeConditionStep_def all_predicates_hold_def list_all_iff)
  show ?thesis
    using empty nonempty evaluateCondition_gt [of c variables] evaluateCondition_lt [of c variables]
      evaluateCondition_contains [of c variables]
    by (simp only: strings_Contains_iff) blast
qed

theorem condition_step_success_is_conjunction_witness:
  "executeConditionStep
     \<lparr>inst_ID = 1, inst_TemplateID = 1, inst_Status = ''running'', inst_Context = [],
      inst_Variables = [(''x'', JNum 10)], inst_CurrentStep = '''', inst_StartedAt = None,
      inst_CompletedAt = None, inst_ErrorMessage = ''''\<rparr>
     \<lparr>def_ID = ''B'', def_Name = ''check'', def_Type = ''condition'', def_Config = [],
      def_NextSteps = [''C'', ''D''], def_Conditions = [], def_RetryPolicy = None\<rparr>
   = Ret (Some \<lparr>res_Success = False, res_Data = [], res_Error = ''no conditions defined''\<rparr>, None)
   \<and> (\<exists>r. executeConditionStep
        \<lparr>inst_ID = 1, inst_TemplateID = 1, inst_Status = ''running'', inst_Context = [],
         inst_Variables = [(''x'', JNum 10)], inst_CurrentStep = '''', inst_StartedAt = None,
         inst_CompletedAt = None, inst_ErrorMessage = ''''\<rparr>
        \<lparr>def_ID = ''B'', def_Name = ''check'', def_Type = ''condition'', def_Config = [],
         def_NextSteps = [''C'', ''D''],
         def_Conditions = [\<lparr>cond_Field = ''x'', cond_Operator = ''gt'', cond_Value = JNum 5\<rparr>],
         def_RetryPolicy = None\<rparr> = Ret (Some r, None) \<and> res_Success r = True)
   \<and> evaluateCondition \<lparr>cond_Field = ''x'', cond_Operator = ''gt'', cond_Value = JNum 5\<rparr>
        [(''x'', JNum 10)] = Ret True
   \<and> evaluateCondition \<lparr>cond_Field = ''x'', cond_Operator = ''lt'', cond_Value = JNum 5\<rparr>
        [(''x'', JStr ''10'')] = Ret False
   \<and> evaluateCondition \<lparr>cond_Field = ''x'', cond_Operator = ''contains'', cond_Value = JStr ''b''\<rparr>
        [(''x'', JNum 10)] = Ret False"
proof -
  let ?i = "\<lparr>inst_ID = 1, inst_TemplateID = 1, inst_Status = ''running'', inst_Context = [],
      inst_Variables = [(''x'', JNum 10)], inst_CurrentStep = '''', inst_StartedAt = None,
      inst_CompletedAt = None, inst_ErrorMessage = ''''\<rparr>"
  let ?gt = "\<lparr>cond_Field = ''x'', cond_Operator = ''gt'', cond_Value = JNum 5\<rparr>"
  let ?lt = "\<lparr>cond_Field = ''x'', cond_Operator = ''lt'', cond_Value = JNum 5\<rparr>"
  let ?ct = "\<lparr>cond_Field = ''x'', cond_Operator = ''contains'', cond_Value = JStr ''b''\<rparr>"
  let ?d0 = "\<lparr>def_ID = ''B'', def_Name = ''check'', def_Type = ''condition'', def_Config = [],
      def_NextSteps = [''C'', ''D''], def_Conditions = [], def_RetryPolicy = None\<rparr>"
  let ?d1 = "\<lparr>def_ID = ''B'', def_Name = ''check'', def_Type = ''condition'', def_Config = [],
      def_NextSteps = [''C'', ''D''], def_Conditions = [?gt], def_RetryPolicy = None\<rparr>"
  have gt: "evaluateCondition ?gt [(''x'', JNum 10)] = Ret True"
    using condition_step_success_is_conjunction [of ?d0 ?i ?gt "[(''x'', JNum 10)]"] by simp
  have lt: "evaluateCondition ?lt [(''x'', JStr ''10'')] = Ret False"
    using condition_step_success_is_conjunction [of ?d0 ?i ?lt "[(''x'', JStr ''10'')]"] by simp
  have ct: "evaluateCondition ?ct [(''x'', JNum 10)] = Ret False"
    using condition_step_success_is_conjunction [of ?d0 ?i ?ct "[(''x'', JNum 10)]"] by simp
  have e: "executeConditionStep ?i ?d0
      = Ret (Some \<lparr>res_Success = False, res_Data = [], res_Error = ''no conditions defined''\<rparr>, None)"
    using condition_step_success_is_conjunction [of ?d0 ?i ?gt "[]"] by simp
  have n: "\<exists>r. executeConditionStep ?i ?d1 = Ret (Some r, None) \<and> res_Success r = True"
    using condition_step_success_is_conjunction [of ?d1 ?i ?gt "[(''x'', JNum 10)]"] gt
    by (auto simp: all_predicates_hold_def)
  show ?thesis using e n gt lt ct by simp
qed

text \<open>
  C10. A predicate whose field is not among the instance's variables evaluates to false,
  whatever its operator and value; a condition step that reaches it (the predicates before
  it hold) returns a failure result, ``condition not met'', and no error.
\<close>

theorem absent_field_is_false:
  assumes "map_of (inst_Variables instance) (cond_Field c) = None"
  shows "evaluateCondition c (inst_Variables instance) = Ret False
    \<and> (def_Conditions stepDef = pre @ c # post
         \<and> (\<forall>p \<in> set pre. evaluateCondition p (inst_Variables instance) = Ret True) \<longrightarrow>
       executeConditionStep instance stepDef =
         Ret (Some \<lparr>res_Success = False, res_Data = [(''reason'', JStr ''condition not met'')],
                    res_Error = ''''\<rparr>, None))"
  using assms conditions_loop_first_false [of pre "inst_Variables instance" c post]
  by (auto simp: executeConditionStep_def evaluateCondition_absent)

theorem absent_field_is_false_witness:
  "map_of [(''x'', JNum 10)] ''y'' = None
   \<and> evaluateCondition \<lparr>cond_Field = ''y'', cond_Operator = ''ne'', cond_Value = JNum 5\<rparr>
        [(''x'', JNum 10)] = Ret False
   \<and> executeConditionStep
       \<lparr>inst_ID = 1, inst_TemplateID = 1, inst_Status = ''running'', inst_Context = [],
        inst_Variables = [(''x'', JNum 10)], inst_CurrentStep = '''', inst_StartedAt = None,
        inst_CompletedAt = None, inst_ErrorMessage = ''''\<rparr>
       \<lparr>def_ID = ''B'', def_Name = ''check'', def_Type = ''condition'', def_Config = [],
        def_NextSteps = [''C'', ''D''],
        def_Conditions = [\<lparr>cond_Field = ''x'', cond_Operator = ''gt'', cond_Value = JNum 5\<rparr>,
                          \<lparr>cond_Field = ''y'', cond_Operator = ''ne'', cond_Value = JNum 5\<rparr>],
        def_RetryPolicy = None\<rparr>
     = Ret (Some \<lparr>res_Success = False, res_Data = [(''reason'', JStr ''condition not met'')],
                  res_Error = ''''\<rparr>, None)"
proof -
  let ?i = "\<lparr>inst_ID = 1, inst_TemplateID = 1, inst_Status = ''running'', inst_Context = [],
      inst_Variables = [(''x'', JNum 10)], inst_CurrentStep = '''', inst_StartedAt = None,
      inst_CompletedAt = None, inst_ErrorMessage = ''''\<rparr>"
  let ?gt = "\<lparr>cond_Field = ''x'', cond_Operator = ''gt'', cond_Value = JNum 5\<rparr>"
  let ?ne = "\<lparr>cond_Field = ''y'', cond_Operator = ''ne'', cond_Value = JNum 5\<rparr>"
  let ?d = "\<lparr>def_ID = ''B'', def_Name = ''check'', def_Type = ''condition'', def_Config = [],
      def_NextSteps = [''C'', ''D''], def_Conditions = [?gt, ?ne], def_RetryPolicy = None\<rparr>"
  have a: "map_of (inst_Variables ?i) (cond_Field ?ne) = None" by simp
  have g: "evaluateCondition ?gt [(''x'', JNum 10)] = Ret True"
    by (simp add: evaluateCondition_def)
  show ?thesis
    using absent_field_is_false [OF a, of ?d "[?gt]" "[]"] g by simp
qed

section \<open>The store and the executor: auxiliary facts\<close>

lemma db_call_nofault: "faults w = [] \<Longrightarrow> db_call w = (None, w)"
  by (simp add: db_call_def)

lemma save_step_nofault:
  "faults w = [] \<Longrightarrow> save_step s w = (None, w\<lparr>steps := upsert s (steps w)\<rparr>)"
  by (simp add: save_step_def db_call_nofault)

lemma update_instance_frame:
  "update_instance i f w = (e, w') \<Longrightarrow>
     steps w' = steps w \<and> exec_log w' = exec_log w \<and> published w' = published w
     \<and> clock w' = clock w \<and> ctx_done w' = ctx_done w \<and> templates w' = templates w
     \<and> (faults w = [] \<longrightarrow> faults w' = [] \<and> e = None)"
  by (auto simp: update_instance_def db_call_def split: list.splits option.splits)

lemma frame_refl [simp]: "frame w w"
  by (simp add: frame_def)

lemma frame_sleep [simp]: "frame w (sleep d w)"
  by (simp add: frame_def sleep_def)

lemma parallel_loop_frame: "parallel_loop i xs acc w = (res, w') \<Longrightarrow> frame w w'"
proof (induction xs arbitrary: i acc w)
  case Nil
  then show ?case by simp
next
  case (Cons x xs)
  from Cons.prems have "parallel_loop (Suc i) xs
       ((''parallel_'' @ show_nat i, JObj [(''status'', JStr ''completed''), (''data'', x)]) # acc)
       (sleep 100 w) = (res, w')" by simp
  from Cons.IH [OF this] show ?case by (simp add: frame_def sleep_def)
qed

lemma executeActionStep_frame:
  "executeActionStep instance stepDef w = (res, err, instance', w') \<Longrightarrow> frame w w'"
  by (auto simp: executeActionStep_def executeHTTPRequest_def executeSendEmail_def
      executeLogMessage_def executeUpdateVariables_def Let_def frame_def sleep_def
      split: option.splits json.splits if_splits prod.splits dest: update_instance_frame)

lemma executeParallelStep_frame:
  "executeParallelStep instance stepDef w = (res, err, instance', w') \<Longrightarrow> frame w w'"
  by (auto simp: executeParallelStep_def Let_def
      split: option.splits json.splits prod.splits dest: parallel_loop_frame)

lemma executeWaitStep_frame:
  "executeWaitStep instance stepDef w = (res, err, instance', w') \<Longrightarrow> frame w w'"
  by (auto simp: executeWaitStep_def split: option.splits json.splits if_splits)

lemma executeSubflowStep_frame:
  "executeSubflowStep instance stepDef w = (res, err, instance', w') \<Longrightarrow> frame w w'"
  by (auto simp: executeSubflowStep_def split: option.splits json.splits if_splits)

lemma execute_by_type_frame: "frame w (world_of (execute_by_type instance stepDef w))"
proof -
  have r: "\<And>r. (\<And>res err i w'. r = (res, err, i, w') \<Longrightarrow> frame w w') \<Longrightarrow> frame w (world_of (returned r))"
    by (auto simp: returned_def split: prod.splits)
  show ?thesis
    unfolding execute_by_type_def
    by (auto intro!: r split: go.splits
        dest: executeActionStep_frame executeParallelStep_frame executeWaitStep_frame executeSubflowStep_frame)
qed

lemma execute_by_type_no_StillRunning: "execute_by_type instance stepDef w \<noteq> StillRunning w'"
  by (auto simp: execute_by_type_def returned_def split: go.splits prod.splits)

lemma execute_by_type_Panics:
  "execute_by_type instance stepDef w = Panics m w' \<Longrightarrow>
     def_Type stepDef = StepTypeCondition \<and> w' = w \<and> executeConditionStep instance stepDef = Panic m"
  by (auto simp: execute_by_type_def returned_def split: go.splits prod.splits if_splits)

lemma find_upsert:
  assumes "find P rows = Some s0" and "step_ID s = step_ID s0" and "P s"
  shows "find P (upsert s rows) = Some s"
proof -
  from assms(1) have mem: "s0 \<in> set rows"
    by (auto simp: find_Some_iff)
  have "find P (map (\<lambda>r. if step_ID r = step_ID s then s else r) rows) = Some s"
    using assms(1)
  proof (induction rows)
    case Nil
    then show ?case by simp
  next
    case (Cons r rows)
    then show ?case using assms(2,3) by (auto split: if_splits)
  qed
  with mem assms(2) show ?thesis
    by (auto simp: upsert_def)
qed

lemma find_append_new:
  "find P rows = None \<Longrightarrow> P s \<Longrightarrow> find P (rows @ [s]) = Some s"
  by (induction rows) (auto split: if_splits)

lemma createOrUpdateStep_nofault:
  assumes "faults w = []"
  shows "\<exists>step0 w1. createOrUpdateStep instanceID stepDef w = (Inr step0, w1)
      \<and> step_record instanceID (def_ID stepDef) w1 = Some step0
      \<and> faults w1 = [] \<and> exec_log w1 = exec_log w \<and> published w1 = published w
      \<and> clock w1 = clock w \<and> instances w1 = instances w"
proof (cases "find (\<lambda>r. step_InstanceID r = instanceID \<and> step_StepID r = def_ID stepDef) (steps w)")
  case None
  then show ?thesis using assms
    by (simp add: createOrUpdateStep_def db_call_nofault step_record_def Let_def find_append_new)
next
  case (Some a)
  then show ?thesis using assms
    by (simp add: createOrUpdateStep_def db_call_nofault step_record_def)
qed

lemma createOrUpdateStep_ctx_done: "ctx_done (snd (createOrUpdateStep i sd w)) = ctx_done w"
  by (auto simp: createOrUpdateStep_def db_call_def Let_def split: list.splits option.splits)

lemma step_record_key:
  "step_record i s w = Some r \<Longrightarrow> step_InstanceID r = i \<and> step_StepID r = s"
  by (auto simp: step_record_def find_Some_iff)

lemma step_record_save:
  assumes "step_record i s w = Some r0" and "step_ID r = step_ID r0"
    and "step_InstanceID r = i" and "step_StepID r = s" and "faults w = []"
  shows "step_record i s (snd (save_step r w)) = Some r"
  using assms by (simp add: save_step_nofault step_record_def find_upsert)

lemma step_record_frame: "frame w w' \<Longrightarrow> step_record i s w' = step_record i s w"
  by (simp add: frame_def step_record_def)

lemma finish_step_record:
  assumes "step_record (inst_ID instance) (def_ID stepDef) w = Some r0" and "step_ID step = step_ID r0"
    and "step_InstanceID step = inst_ID instance" and "step_StepID step = def_ID stepDef"
    and "faults w = []"
  obtains result' w' r where
    "finish_step stepDef step result err instance' w = Returns (result', err, instance') w'"
    "step_record (inst_ID instance) (def_ID stepDef) w' = Some r"
    "err = None \<longrightarrow> step_Status r = StepStatusCompleted \<and> result' = result"
    "err \<noteq> None \<longrightarrow> step_Status r = StepStatusFailed"
    "faults w' = []" "clock w' = clock w" "exec_log w' = exec_log w" "instances w' = instances w"
    "ctx_done w' = ctx_done w"
proof -
  define step2 where "step2 =
    (case err of
       Some e \<Rightarrow> step\<lparr>step_CompletedAt := Some (clock w), step_Status := StepStatusFailed,
                       step_ErrorData := Some [(''error'', JStr e)]\<rparr>
     | None \<Rightarrow> (case result of
           Some res \<Rightarrow> step\<lparr>step_CompletedAt := Some (clock w), step_Status := StepStatusCompleted,
                             step_OutputData := res_Data res\<rparr>
         | None \<Rightarrow> step\<lparr>step_CompletedAt := Some (clock w), step_Status := StepStatusCompleted\<rparr>))"
  define result' where "result' =
    (case err of Some e \<Rightarrow> Some \<lparr>res_Success = False, res_Data = [], res_Error = e\<rparr> | None \<Rightarrow> result)"
  define w1 where "w1 = w\<lparr>steps := upsert step2 (steps w)\<rparr>"
  define w2 where "w2 = publishStepEvent ''step_completed'' (inst_ID instance') (def_ID stepDef) result' w1"
  have k: "step_ID step2 = step_ID r0" "step_InstanceID step2 = inst_ID instance"
    "step_StepID step2 = def_ID stepDef"
    using assms(2,3,4) by (auto simp: step2_def split: option.splits)
  have f: "finish_step stepDef step result err instance' w = Returns (result', err, instance') w2"
    using assms(5)
    by (auto simp: finish_step_def Let_def save_step_nofault step2_def result'_def w1_def w2_def
        split: option.splits)
  have r: "step_record (inst_ID instance) (def_ID stepDef) w2 = Some step2"
    using step_record_save [OF assms(1) k assms(5)] assms(5)
    by (simp add: save_step_nofault w1_def w2_def publishStepEvent_def step_record_def)
  show thesis
  proof (rule that)
    show "finish_step stepDef step result err instance' w = Returns (result', err, instance') w2"
      by (rule f)
    show "step_record (inst_ID instance) (def_ID stepDef) w2 = Some step2"
      by (rule r)
    show "err = None \<longrightarrow> step_Status step2 = StepStatusCompleted \<and> result' = result"
      by (auto simp: step2_def result'_def split: option.splits)
    show "err \<noteq> None \<longrightarrow> step_Status step2 = StepStatusFailed"
      by (auto simp: step2_def split: option.splits)
    show "faults w2 = []" "clock w2 = clock w" "exec_log w2 = exec_log w" "instances w2 = instances w"
      "ctx_done w2 = ctx_done w"
      using assms(5) by (simp_all add: w2_def w1_def publishStepEvent_def)
  qed
qed

lemma ExecuteStep_nofault:
  assumes nf: "faults w = []"
  obtains (ret) w3 result err i' w4 result' w' r where
      "execute_by_type i sd w3 = Returns (result, err, i') w4"
      "clock w3 = clock w" "instances w3 = instances w"
      "ExecuteStep i sd w = Returns (result', err, i') w'"
      "step_record (inst_ID i) (def_ID sd) w' = Some r"
      "err = None \<longrightarrow> step_Status r = StepStatusCompleted \<and> result' = result"
      "err \<noteq> None \<longrightarrow> step_Status r = StepStatusFailed"
      "exec_log w' = exec_log w @ [(inst_ID i, def_ID sd)]"
      "faults w' = []" "clock w' = clock w4" "instances w' = instances w4"
      "ctx_done w3 = ctx_done w" "ctx_done w' = ctx_done w4" "faults w3 = []"
    | (panic) m w' where
      "ExecuteStep i sd w = Panics m w'" "def_Type sd = StepTypeCondition"
      "executeConditionStep i sd = Panic m"
      "exec_log w' = exec_log w @ [(inst_ID i, def_ID sd)]"
proof -
  from createOrUpdateStep_nofault [OF nf, of "inst_ID i" sd]
  obtain step0 w1 where c: "createOrUpdateStep (inst_ID i) sd w = (Inr step0, w1)"
    and r0: "step_record (inst_ID i) (def_ID sd) w1 = Some step0"
    and w1: "faults w1 = []" "exec_log w1 = exec_log w" "clock w1 = clock w" "instances w1 = instances w"
    by blast
  define step where "step = step0\<lparr>step_Status := StepStatusRunning, step_StartedAt := Some (clock w1)\<rparr>"
  define w2 where "w2 = w1\<lparr>steps := upsert step (steps w1)\<rparr>"
  define w3 where "w3 = w2\<lparr>exec_log := exec_log w2 @ [(inst_ID i, def_ID sd)]\<rparr>"
  have key: "step_ID step = step_ID step0" "step_InstanceID step = inst_ID i" "step_StepID step = def_ID sd"
    using step_record_key [OF r0] by (simp_all add: step_def)
  have sv: "save_step step w1 = (None, w2)"
    by (simp add: save_step_nofault w1 w2_def)
  have r2: "step_record (inst_ID i) (def_ID sd) w2 = Some step"
    using step_record_save [OF r0 key w1(1)] sv by simp
  have r3: "step_record (inst_ID i) (def_ID sd) w3 = Some step"
    using r2 by (simp add: w3_def step_record_def)
  have w3: "faults w3 = []" "exec_log w3 = exec_log w @ [(inst_ID i, def_ID sd)]" "clock w3 = clock w"
    "instances w3 = instances w"
    using w1 by (simp_all add: w3_def w2_def)
  have cd3: "ctx_done w3 = ctx_done w"
    using createOrUpdateStep_ctx_done [of "inst_ID i" sd w] c by (simp add: w3_def w2_def)
  have E: "ExecuteStep i sd w =
      (case execute_by_type i sd w3 of
         Returns (result, err, instance') w4 \<Rightarrow> finish_step sd step result err instance' w4
       | Panics m w4 \<Rightarrow> Panics m w4
       | StillRunning w4 \<Rightarrow> StillRunning w4)"
    using c sv unfolding ExecuteStep_def step_def w3_def by (simp add: Let_def)
  have fr: "frame w3 (world_of (execute_by_type i sd w3))"
    by (rule execute_by_type_frame)
  show thesis
  proof (cases "execute_by_type i sd w3")
    case (Returns x w4)
    obtain result err i' where x: "x = (result, err, i')" by (cases x)
    from fr Returns have f4: "frame w3 w4" by simp
    then have r4: "step_record (inst_ID i) (def_ID sd) w4 = Some step"
      using r3 by (simp add: step_record_frame)
    from f4 w3 have nf4: "faults w4 = []" "exec_log w4 = exec_log w @ [(inst_ID i, def_ID sd)]"
      by (simp_all add: frame_def)
    obtain result' w' r where fin: "finish_step sd step result err i' w4 = Returns (result', err, i') w'"
      "step_record (inst_ID i) (def_ID sd) w' = Some r"
      "err = None \<longrightarrow> step_Status r = StepStatusCompleted \<and> result' = result"
      "err \<noteq> None \<longrightarrow> step_Status r = StepStatusFailed"
      "faults w' = []" "clock w' = clock w4" "exec_log w' = exec_log w4" "instances w' = instances w4"
      "ctx_done w' = ctx_done w4"
      by (rule finish_step_record [OF r4 refl key(2,3) nf4(1), where result=result and err=err and instance'=i'])
    show ?thesis
    proof (rule ret)
      show "execute_by_type i sd w3 = Returns (result, err, i') w4"
        using Returns x by simp
      show "clock w3 = clock w" "instances w3 = instances w"
        using w3 by simp_all
      show "ExecuteStep i sd w = Returns (result', err, i') w'"
        using E Returns x fin(1) by simp
      show "step_record (inst_ID i) (def_ID sd) w' = Some r"
        by (rule fin(2))
      show "err = None \<longrightarrow> step_Status r = StepStatusCompleted \<and> result' = result"
        by (rule fin(3))
      show "err \<noteq> None \<longrightarrow> step_Status r = StepStatusFailed"
        by (rule fin(4))
      show "exec_log w' = exec_log w @ [(inst_ID i, def_ID sd)]"
        using fin(7) nf4(2) by simp
      show "faults w' = []" "clock w' = clock w4" "instances w' = instances w4"
        using fin(5,6,8) by simp_all
      show "ctx_done w3 = ctx_done w" "ctx_done w' = ctx_done w4" "faults w3 = []"
        using cd3 fin(9) w3(1) by simp_all
    qed
  next
    case (Panics m w4)
    from execute_by_type_Panics [OF this]
    have p: "def_Type sd = StepTypeCondition" "w4 = w3" "executeConditionStep i sd = Panic m"
      by simp_all
    show ?thesis
    proof (rule panic)
      show "ExecuteStep i sd w = Panics m w4" using E Panics by simp
      show "def_Type sd = StepTypeCondition" "executeConditionStep i sd = Panic m"
        using p by simp_all
      show "exec_log w4 = exec_log w @ [(inst_ID i, def_ID sd)]"
        using p(2) w3(2) by simp
    qed
  next
    case (StillRunning w4)
    then show ?thesis using execute_by_type_no_StillRunning by blast
  qed
qed

section \<open>ExecuteStep and the step record\<close>

lemmas sample_defs =
  sample_world_def running_instance_def log_step_def x_gt_5_step_def wait_event_step_def

lemmas exec_defs =
  ExecuteStep_def createOrUpdateStep_def db_call_def fresh_step_ID_def save_step_def
  upsert_def execute_by_type_def returned_def finish_step_def publishStepEvent_def step_record_def
  executeActionStep_def executeLogMessage_def executeWaitStep_def executeConditionStep_def
  evaluateCondition_def sleep_def Let_def

text \<open>
  C8, as the claim states it, fails in two ways. With a store whose writes all succeed but
  whose first read fails, \<^verbatim>\<open>ExecuteStep\<close> returns early (``failed to create step record'')
  and the existing step record of \<^verbatim>\<open>W\<close> stays \<^verbatim>\<open>running\<close>. And with a store that does not
  fail at all, a condition step that compares two arrays with \<^verbatim>\<open>eq\<close> panics in
  \<^verbatim>\<open>evaluateCondition\<close>: \<^verbatim>\<open>ExecuteStep\<close> does not return, and the step record it had just
  saved as \<^verbatim>\<open>running\<close> stays so.
\<close>

theorem ExecuteStep_nonterminal_counterexample:
  "faults (stuck_world\<lparr>faults := [Some ''connection refused'']\<rparr>) = [Some ''connection refused'']
   \<and> (case ExecuteStep (running_instance []) (wait_event_step ''W'' [])
             (stuck_world\<lparr>faults := [Some ''connection refused'']\<rparr>) of
        Returns (result, err, inst') w' \<Rightarrow>
          err = Some ''failed to create step record: connection refused''
          \<and> steps w' = [stuck_step]
          \<and> map_option step_Status (step_record 1 ''W'' w') = Some StepStatusRunning
      | Panics m w' \<Rightarrow> False
      | StillRunning w' \<Rightarrow> False)
   \<and> (case ExecuteStep (running_instance [(''x'', JArr [])]) (x_eq_array_step ''A'' [])
             (sample_world [(''x'', JArr [])] [x_eq_array_step ''A'' []]) of
        Returns (result, err, inst') w' \<Rightarrow> False
      | Panics m w' \<Rightarrow>
          m = ''runtime error: comparing uncomparable type []interface {}''
          \<and> map_option step_Status (step_record 1 ''A'' w') = Some StepStatusRunning
      | StillRunning w' \<Rightarrow> False)"
  by (simp add: stuck_world_def stuck_step_def sample_defs x_eq_array_step_def exec_defs)

text \<open>
  C8, amended. For every step type, assume that no call to the durable store fails, reads
  included, and, when the step is a condition step, that the evaluation of its conditions
  returns (does not panic). Then \<^verbatim>\<open>ExecuteStep\<close> returns, and the instance's step record for
  that step is in a terminal status: \<^verbatim>\<open>completed\<close> when the returned error is nil (success),
  \<^verbatim>\<open>failed\<close> otherwise (an action error, an unknown step type); never \<^verbatim>\<open>pending\<close> or
  \<^verbatim>\<open>running\<close>.
\<close>

theorem ExecuteStep_returns_with_terminal_step:
  assumes "faults w = []"
    and "def_Type stepDef = StepTypeCondition \<longrightarrow> (\<exists>r. executeConditionStep inst stepDef = Ret r)"
  shows "\<exists>result err inst' w' r.
      ExecuteStep inst stepDef w = Returns (result, err, inst') w'
      \<and> step_record (inst_ID inst) (def_ID stepDef) w' = Some r
      \<and> step_Status r = (if err = None then StepStatusCompleted else StepStatusFailed)"
  using assms(1)
proof (cases rule: ExecuteStep_nofault [of w inst stepDef])
  case (ret w3 result err i' w4 result' w' r)
  have "step_Status r = (if err = None then StepStatusCompleted else StepStatusFailed)"
    using ret(6,7) by simp
  with ret(4,5) show ?thesis by blast
next
  case (panic m w')
  with assms(2) show ?thesis by simp
qed

theorem ExecuteStep_returns_with_terminal_step_witness:
  "faults (sample_world [(''x'', JNum 10)] []) = []
   \<and> def_Type (x_gt_5_step ''A'' []) = StepTypeCondition
   \<and> executeConditionStep (running_instance [(''x'', JNum 10)]) (x_gt_5_step ''A'' [])
       = Ret (Some \<lparr>res_Success = True, res_Data = [(''reason'', JStr ''all conditions met'')],
                    res_Error = ''''\<rparr>, None)
   \<and> (case ExecuteStep (running_instance [(''x'', JNum 10)]) (x_gt_5_step ''A'' [])
             (sample_world [(''x'', JNum 10)] []) of
        Returns (result, err, inst') w' \<Rightarrow>
          err = None \<and> map_option step_Status (step_record 1 ''A'' w') = Some StepStatusCompleted
      | Panics m w' \<Rightarrow> False
      | StillRunning w' \<Rightarrow> False)
   \<and> (case ExecuteStep (running_instance []) ((log_step ''A'' [])\<lparr>def_Type := ''approval''\<rparr>)
             (sample_world [] []) of
        Returns (result, err, inst') w' \<Rightarrow>
          err = Some ''unsupported step type: approval''
          \<and> map_option step_Status (step_record 1 ''A'' w') = Some StepStatusFailed
      | Panics m w' \<Rightarrow> False
      | StillRunning w' \<Rightarrow> False)"
proof -
  let ?i = "running_instance [(''x'', JNum 10)]"
  let ?d = "x_gt_5_step ''A'' []"
  let ?w = "sample_world [(''x'', JNum 10)] []"
  let ?u = "(log_step ''A'' [])\<lparr>def_Type := ''approval''\<rparr>"
  have f: "faults ?w = []" "faults (sample_world [] []) = []" by (simp_all add: sample_defs)
  have t: "def_Type ?d = StepTypeCondition" by (simp add: sample_defs)
  have c: "executeConditionStep ?i ?d
       = Ret (Some \<lparr>res_Success = True, res_Data = [(''reason'', JStr ''all conditions met'')],
                    res_Error = ''''\<rparr>, None)"
    by (simp add: sample_defs executeConditionStep_def evaluateCondition_def)
  then have h: "def_Type ?d = StepTypeCondition \<longrightarrow> (\<exists>r. executeConditionStep ?i ?d = Ret r)"
    by simp
  have h2: "def_Type ?u = StepTypeCondition \<longrightarrow> (\<exists>r. executeConditionStep (running_instance []) ?u = Ret r)"
    by (simp add: log_step_def)
  have e1: "\<exists>res w'. ExecuteStep ?i ?d ?w = Returns (res, None, ?i) w'"
    by (simp add: sample_defs exec_defs)
  have e2: "\<exists>res w'. ExecuteStep (running_instance []) ?u (sample_world [] [])
     = Returns (res, Some ''unsupported step type: approval'', running_instance []) w'"
    by (simp add: sample_defs exec_defs)
  have k: "inst_ID ?i = 1" "def_ID ?d = ''A''" "inst_ID (running_instance []) = 1" "def_ID ?u = ''A''"
    by (simp_all add: sample_defs)
  have a1: "case ExecuteStep ?i ?d ?w of
        Returns (result, err, inst') w' \<Rightarrow>
          err = None \<and> map_option step_Status (step_record 1 ''A'' w') = Some StepStatusCompleted
      | Panics m w' \<Rightarrow> False
      | StillRunning w' \<Rightarrow> False"
    using ExecuteStep_returns_with_terminal_step [OF f(1) h] e1 k(1,2) by auto
  have a2: "case ExecuteStep (running_instance []) ?u (sample_world [] []) of
        Returns (result, err, inst') w' \<Rightarrow>
          err = Some ''unsupported step type: approval''
          \<and> map_option step_Status (step_record 1 ''A'' w') = Some StepStatusFailed
      | Panics m w' \<Rightarrow> False
      | StillRunning w' \<Rightarrow> False"
    using ExecuteStep_returns_with_terminal_step [OF f(2) h2] e2 k(3,4) by auto
  show ?thesis
    using f(1) t c a1 a2 by simp
qed

section \<open>A workflow without steps\<close>

lemma completeInstance_nofault:
  assumes "faults w = []" and "instances w i = Some row"
  shows "completeInstance i w =
     (None, w\<lparr>instances := (instances w)(i \<mapsto> row\<lparr>inst_Status := WorkflowStatusCompleted,
                                                    inst_CompletedAt := Some (clock w)\<rparr>)\<rparr>)"
  using assms by (simp add: completeInstance_def update_instance_def db_call_nofault)

text \<open>
  C9. For a running instance whose template schema has no steps, \<^verbatim>\<open>executeWorkflow\<close> returns
  at once and without error (with no fuel at all: the loop is not entered), and so does
  \<^verbatim>\<open>processInstance\<close>; while the store does not fail, the only change to the world is that
  the instance row has status \<^verbatim>\<open>completed\<close> and \<^verbatim>\<open>completed_at\<close> set to the current time. The
  steps table, the execution log and the published events are as before: no step was
  executed and no step record created.
\<close>

theorem no_steps_completes_at_once:
  assumes "faults w = []" and "instances w instanceID = Some inst" and "inst_ID inst = instanceID"
    and "inst_Status inst = WorkflowStatusRunning"
    and "parseSchema (templates w (inst_TemplateID inst)) = Inr schema" and "Steps schema = []"
  shows "executeWorkflow fuel env inst schema w =
       Returns None (w\<lparr>instances := (instances w)(instanceID \<mapsto>
          inst\<lparr>inst_Status := WorkflowStatusCompleted, inst_CompletedAt := Some (clock w)\<rparr>)\<rparr>)
     \<and> processInstance fuel env instanceID w =
       Returns () (w\<lparr>instances := (instances w)(instanceID \<mapsto>
          inst\<lparr>inst_Status := WorkflowStatusCompleted, inst_CompletedAt := Some (clock w)\<rparr>)\<rparr>)"
proof -
  have e: "executeWorkflow fuel env inst schema w =
       Returns None (w\<lparr>instances := (instances w)(instanceID \<mapsto>
          inst\<lparr>inst_Status := WorkflowStatusCompleted, inst_CompletedAt := Some (clock w)\<rparr>)\<rparr>)"
    using assms by (simp add: executeWorkflow_def completeInstance_nofault)
  have "processInstance fuel env instanceID w =
       Returns () (w\<lparr>instances := (instances w)(instanceID \<mapsto>
          inst\<lparr>inst_Status := WorkflowStatusCompleted, inst_CompletedAt := Some (clock w)\<rparr>)\<rparr>)"
    using assms e by (simp add: processInstance_def db_call_nofault)
  with e show ?thesis by simp
qed

theorem no_steps_completes_at_once_witness:
  "faults (sample_world [] []) = []
   \<and> map_option inst_Status (instances (world_of (processInstance 0 [] 1 (sample_world [] []))) 1)
       = Some WorkflowStatusCompleted
   \<and> map_option inst_CompletedAt (instances (world_of (processInstance 0 [] 1 (sample_world [] []))) 1)
       = Some (Some 0)
   \<and> steps (world_of (processInstance 0 [] 1 (sample_world [] []))) = []
   \<and> exec_log (world_of (processInstance 0 [] 1 (sample_world [] []))) = []"
proof -
  have f: "faults (sample_world [] []) = []" by (simp add: sample_defs)
  have i: "instances (sample_world [] []) 1 = Some (running_instance [])" by (simp add: sample_defs)
  have p: "parseSchema (templates (sample_world [] []) (inst_TemplateID (running_instance []))) = Inr \<lparr>Steps = []\<rparr>"
    by (simp add: sample_defs parseSchema_def)
  show ?thesis
    using no_steps_completes_at_once [OF f i _ _ p, of 0 "[]"]
    by (simp add: sample_defs)
qed

section \<open>The step-timeout handler\<close>

lemma HandleStepTimeout_nofault:
  "faults w = [] \<Longrightarrow>
   HandleStepTimeout step w = w\<lparr>steps := upsert (timed_out_row (clock w) step) (steps w)\<rparr>"
  by (simp add: HandleStepTimeout_def save_step_nofault timed_out_row_def)

lemma upsert_marked:
  assumes d: "distinct (map step_ID T)" and s: "s \<in> set T"
  shows "upsert (timed_out_row now s) (map (\<lambda>r. if r \<in> D then timed_out_row now r else r) T)
     = map (\<lambda>r. if r \<in> insert s D then timed_out_row now r else r) T"
proof -
  let ?g = "\<lambda>r. if r \<in> D then timed_out_row now r else r"
  have id: "\<And>r. step_ID (?g r) = step_ID r" "\<And>r. step_ID (timed_out_row now r) = step_ID r"
    by (simp_all add: timed_out_row_def)
  have inj: "inj_on step_ID (set T)"
    using d by (simp add: distinct_map)
  have ex: "\<exists>r \<in> set (map ?g T). step_ID r = step_ID (timed_out_row now s)"
    using s id by (intro bexI [of _ "?g s"]) auto
  have "map (\<lambda>r. if step_ID r = step_ID (timed_out_row now s) then timed_out_row now s else r) (map ?g T)
      = map (\<lambda>r. if r \<in> insert s D then timed_out_row now r else r) T"
  proof (simp only: map_map o_def, rule map_cong [OF refl])
    fix r assume r: "r \<in> set T"
    have "step_ID r = step_ID s \<longleftrightarrow> r = s"
      using inj r s by (auto dest: inj_onD)
    then show "(if step_ID (?g r) = step_ID (timed_out_row now s) then timed_out_row now s else ?g r)
        = (if r \<in> insert s D then timed_out_row now r else r)"
      using id by auto
  qed
  with ex show ?thesis
    unfolding upsert_def by (simp only: if_True)
qed

lemma fold_HandleStepTimeout:
  assumes "faults w = []" and "distinct (map step_ID T)" and "set sel \<subseteq> set T"
    and "steps w = map (\<lambda>r. if r \<in> D then timed_out_row (clock w) r else r) T"
  shows "fold HandleStepTimeout sel w
     = w\<lparr>steps := map (\<lambda>r. if r \<in> D \<union> set sel then timed_out_row (clock w) r else r) T\<rparr>"
  using assms
proof (induction sel arbitrary: w D)
  case Nil
  then show ?case by simp
next
  case (Cons s sel)
  define w1 where "w1 = w\<lparr>steps := map (\<lambda>r. if r \<in> insert s D then timed_out_row (clock w) r else r) T\<rparr>"
  have s: "s \<in> set T" using Cons.prems(3) by simp
  have h: "HandleStepTimeout s w = w1"
    using Cons.prems(1,4) upsert_marked [OF Cons.prems(2) s, of "clock w" D]
    by (simp add: HandleStepTimeout_nofault w1_def)
  have "fold HandleStepTimeout sel w1
     = w1\<lparr>steps := map (\<lambda>r. if r \<in> insert s D \<union> set sel then timed_out_row (clock w1) r else r) T\<rparr>"
    using Cons.prems by (intro Cons.IH) (simp_all add: w1_def)
  then show ?case
    using h by (simp add: w1_def)
qed

text \<open>
  C3, as the claim states it, fails. The step \<^verbatim>\<open>W\<close> has been running since time 0 and is
  read at 400 s with a step timeout of 300 s; its retry count 0 is below the retry limit 3.
  The sweep marks it \<^verbatim>\<open>failed\<close>, not \<^verbatim>\<open>pending\<close>, and leaves its retry count at 0. With
  the retry count at the limit 3 the sweep marks the step \<^verbatim>\<open>failed\<close> as well, and the owning
  instance stays \<^verbatim>\<open>running\<close>: it is not transitioned to \<^verbatim>\<open>failed\<close>.
\<close>

theorem timeout_handler_counterexample:
  "step_RetryCount stuck_step < StepRetryLimit sample_config
   \<and> past_timeout sample_config (clock stuck_world) stuck_step
   \<and> map step_Status (steps (checkTimeouts sample_config stuck_world)) = [StepStatusFailed]
   \<and> map step_RetryCount (steps (checkTimeouts sample_config stuck_world)) = [0]
   \<and> map_option inst_Status (instances (checkTimeouts sample_config stuck_world) 1) = Some WorkflowStatusRunning
   \<and> map step_Status (steps (checkTimeouts sample_config
         (stuck_world\<lparr>steps := [stuck_step\<lparr>step_RetryCount := 3\<rparr>]\<rparr>))) = [StepStatusFailed]
   \<and> map_option inst_Status (instances (checkTimeouts sample_config
         (stuck_world\<lparr>steps := [stuck_step\<lparr>step_RetryCount := 3\<rparr>]\<rparr>)) 1) = Some WorkflowStatusRunning"
  by (simp add: stuck_world_def sample_defs stuck_step_def sample_config_def past_timeout_def
      checkTimeouts_def db_call_def HandleStepTimeout_def save_step_def upsert_def Let_def)

text \<open>
  C3, amended. The timeout handler consults no retry policy: whatever the retry count of the
  step it is handed, it marks the step \<^verbatim>\<open>failed\<close>, with \<^verbatim>\<open>completed_at\<close> the time of the
  check and \<^verbatim>\<open>error_data\<close> ``step timed out'', and changes neither the retry count nor
  anything outside the steps table (while the store does not fail). So the sweep over a
  steps table with distinct primary keys turns exactly the rows that are \<^verbatim>\<open>running\<close> and
  started before the deadline into such failed rows, and leaves every instance row as it is.
\<close>

theorem timeout_handler_fails_the_step:
  assumes "faults w = []"
  shows "HandleStepTimeout step w = w\<lparr>steps := upsert (timed_out_row (clock w) step) (steps w)\<rparr>
    \<and> (distinct (map step_ID (steps w)) \<longrightarrow>
       checkTimeouts cfg w =
         w\<lparr>steps := map (\<lambda>r. if past_timeout cfg (clock w) r then timed_out_row (clock w) r else r)
                        (steps w)\<rparr>)"
proof -
  have "checkTimeouts cfg w =
         w\<lparr>steps := map (\<lambda>r. if past_timeout cfg (clock w) r then timed_out_row (clock w) r else r)
                        (steps w)\<rparr>"
    if d: "distinct (map step_ID (steps w))"
  proof -
    have c: "checkTimeouts cfg w = fold HandleStepTimeout (filter (past_timeout cfg (clock w)) (steps w)) w"
      using assms by (simp add: checkTimeouts_def db_call_nofault past_timeout_def [abs_def] Let_def)
    have "fold HandleStepTimeout (filter (past_timeout cfg (clock w)) (steps w)) w
      = w\<lparr>steps := map (\<lambda>r. if r \<in> {} \<union> set (filter (past_timeout cfg (clock w)) (steps w))
                               then timed_out_row (clock w) r else r) (steps w)\<rparr>"
      using assms d by (intro fold_HandleStepTimeout) simp_all
    also have "map (\<lambda>r. if r \<in> {} \<union> set (filter (past_timeout cfg (clock w)) (steps w))
                               then timed_out_row (clock w) r else r) (steps w)
       = map (\<lambda>r. if past_timeout cfg (clock w) r then timed_out_row (clock w) r else r) (steps w)"
      by (rule map_cong) auto
    finally show ?thesis using c by simp
  qed
  then show ?thesis
    using assms by (simp add: HandleStepTimeout_nofault)
qed

theorem timeout_handler_fails_the_step_witness:
  "faults stuck_world = [] \<and> distinct (map step_ID (steps stuck_world))
   \<and> steps (HandleStepTimeout stuck_step stuck_world) = [timed_out_row 400000 stuck_step]
   \<and> steps (checkTimeouts sample_config stuck_world) = [timed_out_row 400000 stuck_step]"
proof -
  have f: "faults stuck_world = []" by (simp add: stuck_world_def sample_defs)
  have d: "distinct (map step_ID (steps stuck_world))" by (simp add: stuck_world_def sample_defs)
  have p: "past_timeout sample_config 400000 stuck_step"
    by (simp add: past_timeout_def sample_config_def stuck_step_def)
  show ?thesis
    using timeout_handler_fails_the_step [OF f, of stuck_step sample_config] d f p
    by (simp add: stuck_world_def sample_defs upsert_def timed_out_row_def stuck_step_def)
qed

section \<open>Next-step resolution\<close>

lemmas engine_defs =
  processInstance_def parseSchema_def executeWorkflow_def checkInstanceStatus_def
  findStepDefinition_def updateInstanceCurrentStep_def update_instance_def determineNextStep_def
  completeInstance_def failInstance_def PauseInstance_def CancelInstance_def

text \<open>
  C1, as the claim states it, fails. Step \<^verbatim>\<open>A\<close> is a condition step (\<^verbatim>\<open>x > 5\<close>) with the
  single next step \<^verbatim>\<open>B\<close>; with \<^verbatim>\<open>x = 1\<close> its predicate fails. Next-step resolution
  returns \<^verbatim>\<open>B\<close>, and the run of the instance executes \<^verbatim>\<open>A\<close> and then \<^verbatim>\<open>B\<close>: the single next
  entry is taken.
\<close>

theorem single_next_entry_counterexample:
  "executeConditionStep (running_instance [(''x'', JNum 1)]) (x_gt_5_step ''A'' [''B''])
     = Ret (Some \<lparr>res_Success = False, res_Data = [(''reason'', JStr ''condition not met'')],
                  res_Error = ''''\<rparr>, None)
   \<and> determineNextStep (x_gt_5_step ''A'' [''B''])
       (Some \<lparr>res_Success = False, res_Data = [(''reason'', JStr ''condition not met'')],
              res_Error = ''''\<rparr>)
     = Ret (''B'', None)
   \<and> exec_log (world_of (processInstance 5 [] 1
        (sample_world [(''x'', JNum 1)] [x_gt_5_step ''A'' [''B''], log_step ''B'' []])))
     = [(1, ''A''), (1, ''B'')]"
  by (simp add: sample_defs exec_defs engine_defs eval_nat_numeral)

text \<open>
  C1, amended. For every step whose list of next steps has exactly one entry (a condition
  step whose predicate failed included, whatever the result), next-step resolution returns
  that entry and no error: the entry is taken. Resolution ends the workflow, by returning
  the empty id, only at a step without next steps, or when an entry of the list is itself
  the empty id.
\<close>

theorem single_next_entry_is_taken:
  "(length (def_NextSteps stepDef) = 1 \<longrightarrow>
      determineNextStep stepDef result = Ret (def_NextSteps stepDef ! 0, None))
   \<and> (determineNextStep stepDef result = Ret ('''', err) \<longrightarrow>
      def_NextSteps stepDef = [] \<or> '''' \<in> set (def_NextSteps stepDef))"
proof -
  have "determineNextStep stepDef result = Ret ('''', err) \<longrightarrow>
      def_NextSteps stepDef = [] \<or> '''' \<in> set (def_NextSteps stepDef)"
  proof (cases "def_NextSteps stepDef")
    case Nil
    then show ?thesis by simp
  next
    case (Cons a list)
    show ?thesis
    proof (cases list)
      case Nil
      with Cons show ?thesis by (auto simp: determineNextStep_def)
    next
      case (Cons b list')
      with \<open>def_NextSteps stepDef = a # list\<close> show ?thesis
        by (auto simp: determineNextStep_def split: option.splits if_splits)
    qed
  qed
  then show ?thesis by (simp add: determineNextStep_def)
qed

theorem single_next_entry_is_taken_witness:
  "length (def_NextSteps (x_gt_5_step ''A'' [''B''])) = 1
   \<and> determineNextStep (x_gt_5_step ''A'' [''B''])
       (Some \<lparr>res_Success = False, res_Data = [(''reason'', JStr ''condition not met'')],
              res_Error = ''''\<rparr>)
     = Ret (''B'', None)
   \<and> determineNextStep (log_step ''B'' []) None = Ret ('''', None)
   \<and> def_NextSteps (log_step ''B'' []) = []"
proof -
  have a: "length (def_NextSteps (x_gt_5_step ''A'' [''B''])) = 1"
    by (simp add: x_gt_5_step_def)
  have b: "determineNextStep (log_step ''B'' []) None = Ret ('''', None)"
    by (simp add: log_step_def determineNextStep_def)
  show ?thesis
    using single_next_entry_is_taken [of "x_gt_5_step ''A'' [''B'']"
        "Some \<lparr>res_Success = False, res_Data = [(''reason'', JStr ''condition not met'')], res_Error = ''''\<rparr>" None]
      single_next_entry_is_taken [of "log_step ''B'' []" None None] a b
    by (simp add: x_gt_5_step_def log_step_def)
qed

section \<open>Pausing and cancelling a running instance\<close>

text \<open>
  C2: the code does not do what the claim says. The workflow is \<^verbatim>\<open>A\<close>, then \<^verbatim>\<open>B\<close>. During the
  delay after \<^verbatim>\<open>A\<close> the handler \<^verbatim>\<open>PauseInstance\<close> (or \<^verbatim>\<open>CancelInstance\<close>) sets the status
  of the running instance. At the next iteration \<^verbatim>\<open>checkInstanceStatus\<close> returns an error,
  \<^verbatim>\<open>executeWorkflow\<close> hands it up, and \<^verbatim>\<open>processInstance\<close> calls \<^verbatim>\<open>failInstance\<close>: the
  instance ends \<^verbatim>\<open>failed\<close>, with the error message recorded, instead of keeping the status
  \<^verbatim>\<open>paused\<close> (or \<^verbatim>\<open>cancelled\<close>).
\<close>

theorem pause_between_steps_fails_instance:
  "map_option inst_Status (instances (world_of (processInstance 5 [PauseRequest 1] 1
        (sample_world [] [log_step ''A'' [''B''], log_step ''B'' []]))) 1)
     = Some WorkflowStatusFailed
   \<and> map_option inst_ErrorMessage (instances (world_of (processInstance 5 [PauseRequest 1] 1
        (sample_world [] [log_step ''A'' [''B''], log_step ''B'' []]))) 1)
     = Some ''workflow instance status changed to paused''
   \<and> map_option inst_Status (instances (world_of (processInstance 5 [CancelRequest 1] 1
        (sample_world [] [log_step ''A'' [''B''], log_step ''B'' []]))) 1)
     = Some WorkflowStatusFailed
   \<and> map_option inst_ErrorMessage (instances (world_of (processInstance 5 [CancelRequest 1] 1
        (sample_world [] [log_step ''A'' [''B''], log_step ''B'' []]))) 1)
     = Some ''workflow instance status changed to cancelled''"
  by (simp add: sample_defs exec_defs engine_defs eval_nat_numeral)

section \<open>Waiting for an event\<close>





section \<open>Restarting the orchestration loop\<close>

text \<open>The execution log only grows, whatever the store and the other actors do.\<close>

lemma db_call_log: "exec_log (snd (db_call w)) = exec_log w"
  by (simp add: db_call_def split: list.splits)

lemma save_step_log: "exec_log (snd (save_step s w)) = exec_log w"
  by (auto simp: save_step_def db_call_def split: list.splits option.splits)

lemma update_instance_log: "exec_log (snd (update_instance i f w)) = exec_log w"
  by (auto simp: update_instance_def db_call_def split: list.splits option.splits)

lemma createOrUpdateStep_log: "exec_log (snd (createOrUpdateStep i sd w)) = exec_log w"
  by (auto simp: createOrUpdateStep_def db_call_def Let_def split: list.splits option.splits)

lemma checkInstanceStatus_log: "exec_log (snd (checkInstanceStatus i w)) = exec_log w"
  by (auto simp: checkInstanceStatus_def db_call_def split: list.splits option.splits)

lemma completeInstance_log: "exec_log (snd (completeInstance i w)) = exec_log w"
  by (simp add: completeInstance_def update_instance_log)

lemma updateInstanceCurrentStep_log: "exec_log (snd (updateInstanceCurrentStep i s w)) = exec_log w"
  by (simp add: updateInstanceCurrentStep_def update_instance_log)

lemma interfere_log: "exec_log (interfere x w) = exec_log w"
  by (cases x)
     (auto simp: PauseInstance_def CancelInstance_def db_call_def Let_def
        split: list.splits option.splits)

lemma finish_step_log:
  "exec_log (world_of (finish_step sd step result err i w)) = exec_log w"
  by (auto simp: finish_step_def Let_def publishStepEvent_def save_step_log
      split: option.splits prod.splits)

lemma ExecuteStep_log:
  "\<exists>rest. exec_log (world_of (ExecuteStep i sd w)) = exec_log w @ rest"
proof (cases "createOrUpdateStep (inst_ID i) sd w")
  case (Pair x w1)
  have l1: "exec_log w1 = exec_log w"
    using createOrUpdateStep_log [of "inst_ID i" sd w] Pair by simp
  show ?thesis
  proof (cases x)
    case (Inl err)
    with Pair l1 show ?thesis by (simp add: ExecuteStep_def)
  next
    case (Inr step0)
    define step where "step = step0\<lparr>step_Status := StepStatusRunning, step_StartedAt := Some (clock w1)\<rparr>"
    obtain e w2 where sv: "save_step step w1 = (e, w2)" by (cases "save_step step w1")
    have l2: "exec_log w2 = exec_log w"
      using save_step_log [of step w1] sv l1 by simp
    show ?thesis
    proof (cases e)
      case (Some err)
      with Pair Inr sv l2 show ?thesis
        unfolding ExecuteStep_def step_def by (simp add: Let_def)
    next
      case None
      define w3 where "w3 = w2\<lparr>exec_log := exec_log w2 @ [(inst_ID i, def_ID sd)]\<rparr>"
      have E: "ExecuteStep i sd w =
        (case execute_by_type i sd w3 of
           Returns (result, err, instance') w4 \<Rightarrow> finish_step sd step result err instance' w4
         | Panics m w4 \<Rightarrow> Panics m w4
         | StillRunning w4 \<Rightarrow> StillRunning w4)"
        using Pair Inr sv None unfolding ExecuteStep_def step_def w3_def by (simp add: Let_def)
      have fr: "exec_log (world_of (execute_by_type i sd w3)) = exec_log w @ [(inst_ID i, def_ID sd)]"
        using execute_by_type_frame [of w3 i sd] l2 by (simp add: frame_def w3_def)
      have "exec_log (world_of (ExecuteStep i sd w)) = exec_log w @ [(inst_ID i, def_ID sd)]"
        using fr unfolding E
        by (cases "execute_by_type i sd w3") (auto simp: finish_step_log split: prod.splits)
      then show ?thesis by blast
    qed
  qed
qed

lemma executeWorkflow_loop_Suc_log:
  assumes c: "checkInstanceStatus (inst_ID i) w = (None, w1)"
    and f: "findStepDefinition (Steps schema) cur = Some stepDef"
    and IH: "\<And>env i cur w. \<exists>rest. exec_log (world_of (executeWorkflow_loop fuel env i schema cur w))
               = exec_log w @ rest"
  shows "\<exists>rest. exec_log (world_of (executeWorkflow_loop (Suc fuel) env i schema cur w))
     = exec_log (world_of (ExecuteStep i stepDef w1)) @ rest"
proof (cases "ExecuteStep i stepDef w1")
  case (Panics m w2)
  with c f show ?thesis by simp
next
  case (StillRunning w2)
  with c f show ?thesis by simp
next
  case (Returns res w2)
  obtain stepResult err i' where res: "res = (stepResult, err, i')" by (cases res)
  show ?thesis
  proof (cases err)
    case (Some a)
    with c f Returns res show ?thesis by simp
  next
    case None
    define w3 where "w3 = snd (updateInstanceCurrentStep (inst_ID i) cur w2)"
    have l3: "exec_log w3 = exec_log w2"
      by (simp add: w3_def updateInstanceCurrentStep_log)
    have L: "executeWorkflow_loop (Suc fuel) env i schema cur w =
      (case determineNextStep stepDef stepResult of
         Panic m \<Rightarrow> Panics m w3
       | Ret (nextStepID, Some err) \<Rightarrow>
           Returns (Some (''failed to determine next step: '' @ err)) w3
       | Ret (nextStepID, None) \<Rightarrow>
           if nextStepID = '''' then
             (case completeInstance (inst_ID i) w3 of (err, w4) \<Rightarrow> Returns err w4)
           else
             (let w4 = interfere (next_external env) w3
              in if ctx_done w4 then Returns (Some ''workflow engine shutting down'') w4
                 else executeWorkflow_loop fuel (tl env) i' schema nextStepID (sleep 100 w4)))"
      using c f Returns res None unfolding w3_def by (simp add: Let_def)
    show ?thesis
    proof (cases "determineNextStep stepDef stepResult")
      case (Panic m)
      with L l3 Returns show ?thesis by simp
    next
      case (Ret p)
      obtain nextStepID err2 where p: "p = (nextStepID, err2)" by (cases p)
      show ?thesis
      proof (cases err2)
        case (Some a)
        with L Ret p l3 Returns show ?thesis by simp
      next
        case None
        note err2 = None
        show ?thesis
        proof (cases "nextStepID = ''''")
          case True
          have "exec_log (snd (completeInstance (inst_ID i) w3)) = exec_log w2"
            using l3 by (simp add: completeInstance_log)
          with L Ret p err2 True Returns show ?thesis
            by (cases "completeInstance (inst_ID i) w3") simp
        next
          case False
          define w4 where "w4 = interfere (next_external env) w3"
          have l4: "exec_log w4 = exec_log w2"
            using l3 by (simp add: w4_def interfere_log)
          show ?thesis
          proof (cases "ctx_done w4")
            case True
            with L Ret p err2 False l4 Returns show ?thesis
              by (simp add: w4_def Let_def)
          next
            case nd: False
            from IH [of "tl env" i' nextStepID "sleep 100 w4"]
            obtain r2 where "exec_log (world_of (executeWorkflow_loop fuel (tl env) i' schema nextStepID (sleep 100 w4)))
               = exec_log (sleep 100 w4) @ r2" by blast
            then have "exec_log (world_of (executeWorkflow_loop fuel (tl env) i' schema nextStepID (sleep 100 w4)))
               = exec_log w2 @ r2"
              using l4 by (simp add: sleep_def)
            with L Ret p err2 False nd Returns show ?thesis
              by (simp add: w4_def Let_def)
          qed
        qed
      qed
    qed
  qed
qed

lemma executeWorkflow_loop_log:
  "\<exists>rest. exec_log (world_of (executeWorkflow_loop fuel env i schema cur w)) = exec_log w @ rest"
proof (induction fuel arbitrary: env i cur w)
  case 0
  then show ?case by simp
next
  case (Suc fuel)
  obtain e w1 where c: "checkInstanceStatus (inst_ID i) w = (e, w1)"
    by (cases "checkInstanceStatus (inst_ID i) w")
  have l1: "exec_log w1 = exec_log w"
    using checkInstanceStatus_log [of "inst_ID i" w] c by simp
  show ?case
  proof (cases e)
    case (Some err)
    with c l1 show ?thesis by simp
  next
    case None
    note e = None
    show ?thesis
    proof (cases "findStepDefinition (Steps schema) cur")
      case None
      with c e l1 show ?thesis by simp
    next
      case (Some stepDef)
      from ExecuteStep_log [of i stepDef w1] l1
      obtain r1 where x: "exec_log (world_of (ExecuteStep i stepDef w1)) = exec_log w @ r1"
        by auto
      from executeWorkflow_loop_Suc_log [OF c [unfolded e] Some Suc.IH, of env]
      obtain r2 where "exec_log (world_of (executeWorkflow_loop (Suc fuel) env i schema cur w))
          = exec_log (world_of (ExecuteStep i stepDef w1)) @ r2" by blast
      with x have "exec_log (world_of (executeWorkflow_loop (Suc fuel) env i schema cur w))
          = exec_log w @ (r1 @ r2)" by simp
      then show ?thesis by blast
    qed
  qed
qed

lemma checkInstanceStatus_running:
  assumes "faults w = []" and "instances w i = Some row" and "inst_Status row = WorkflowStatusRunning"
  shows "checkInstanceStatus i w = (None, w)"
  using assms by (simp add: checkInstanceStatus_def db_call_nofault)

lemma ExecuteStep_nofault_log:
  assumes "faults w = []"
  shows "exec_log (world_of (ExecuteStep i sd w)) = exec_log w @ [(inst_ID i, def_ID sd)]"
  using assms
proof (cases rule: ExecuteStep_nofault [of w i sd])
  case (ret w3 result err i' w4 result' w' r)
  then show ?thesis by simp
next
  case (panic m w')
  then show ?thesis by simp
qed

lemma upsert_ids:
  "step_ID s \<in> set (map step_ID rows) \<Longrightarrow> map step_ID (upsert s rows) = map step_ID rows"
  by (auto simp: upsert_def)

lemma finish_step_ids:
  assumes "faults w = []" and "step_ID step \<in> set (map step_ID (steps w))"
  shows "map step_ID (steps (world_of (finish_step sd step result err i w))) = map step_ID (steps w)"
  using assms
  by (cases err; cases result)
     (simp_all add: finish_step_def Let_def save_step_nofault publishStepEvent_def upsert_ids)

lemma ExecuteStep_reuses_record:
  assumes nf: "faults w = []" and r0: "step_record (inst_ID i) (def_ID sd) w = Some r0"
  shows "map step_ID (steps (world_of (ExecuteStep i sd w))) = map step_ID (steps w)"
proof -
  define step where "step = r0\<lparr>step_Status := StepStatusRunning, step_StartedAt := Some (clock w)\<rparr>"
  define w2 where "w2 = w\<lparr>steps := upsert step (steps w)\<rparr>"
  define w3 where "w3 = w2\<lparr>exec_log := exec_log w2 @ [(inst_ID i, def_ID sd)]\<rparr>"
  have c: "createOrUpdateStep (inst_ID i) sd w = (Inr r0, w)"
    using nf r0 by (simp add: createOrUpdateStep_def db_call_nofault step_record_def)
  have sv: "save_step step w = (None, w2)"
    by (simp add: save_step_nofault nf w2_def)
  have mem: "step_ID step \<in> set (map step_ID (steps w))"
    using r0 by (auto simp: step_record_def find_Some_iff step_def)
  have ids3: "map step_ID (steps w3) = map step_ID (steps w)"
    using upsert_ids [OF mem] by (simp add: w3_def w2_def)
  have nf3: "faults w3 = []"
    using nf by (simp add: w3_def w2_def)
  have E: "ExecuteStep i sd w =
      (case execute_by_type i sd w3 of
         Returns (result, err, instance') w4 \<Rightarrow> finish_step sd step result err instance' w4
       | Panics m w4 \<Rightarrow> Panics m w4
       | StillRunning w4 \<Rightarrow> StillRunning w4)"
    using c sv unfolding ExecuteStep_def step_def w3_def by (simp add: Let_def)
  have fr: "frame w3 (world_of (execute_by_type i sd w3))"
    by (rule execute_by_type_frame)
  show ?thesis
  proof (cases "execute_by_type i sd w3")
    case (Returns x w4)
    obtain result err i' where x: "x = (result, err, i')" by (cases x)
    from fr Returns have f4: "steps w4 = steps w3" "faults w4 = []"
      using nf3 by (simp_all add: frame_def)
    have "step_ID step \<in> set (map step_ID (steps w4))"
      using mem f4(1) ids3 by simp
    from finish_step_ids [OF f4(2) this, of sd result err i'] show ?thesis
      using E Returns x f4(1) ids3 by simp
  next
    case (Panics m w4)
    with fr have "steps w4 = steps w3" by (simp add: frame_def)
    then show ?thesis using E Panics ids3 by simp
  next
    case (StillRunning w4)
    with fr have "steps w4 = steps w3" by (simp add: frame_def)
    then show ?thesis using E StillRunning ids3 by simp
  qed
qed

lemma update_instance_status:
  assumes "\<And>row. inst_Status (f row) = inst_Status row"
  shows "map_option inst_Status (instances (snd (update_instance i f w)) k)
     = map_option inst_Status (instances w k)"
  using assms by (auto simp: update_instance_def db_call_def split: list.splits option.splits)

lemma parallel_loop_instances: "instances (snd (parallel_loop n xs acc w)) = instances w"
  by (induction xs arbitrary: n acc w) (simp_all add: sleep_def)

lemma executeActionStep_status:
  assumes "executeActionStep i sd w = (res, err, i', w')"
  shows "inst_ID i' = inst_ID i
     \<and> map_option inst_Status (instances w' k) = map_option inst_Status (instances w k)"
proof -
  have u: "map_option inst_Status (instances w1 k) = map_option inst_Status (instances w k)"
    if "update_instance (inst_ID i) (\<lambda>row. row\<lparr>inst_Variables := v\<rparr>) w = (e, w1)" for v w1 e
    using that update_instance_status [of "\<lambda>row. row\<lparr>inst_Variables := v\<rparr>" "inst_ID i" w k]
    by simp
  show ?thesis
    using assms
    by (auto simp: executeActionStep_def executeHTTPRequest_def executeSendEmail_def
        executeLogMessage_def executeUpdateVariables_def Let_def sleep_def
        split: option.splits json.splits if_splits prod.splits dest: u)
qed

lemma execute_by_type_status:
  assumes "execute_by_type i sd w = Returns (res, err, i') w'"
  shows "inst_ID i' = inst_ID i
     \<and> map_option inst_Status (instances w' k) = map_option inst_Status (instances w k)"
proof -
  have p: "\<And>xs a b. parallel_loop 0 xs [] w = (a, b) \<Longrightarrow> instances b = instances w"
    using parallel_loop_instances [of 0 _ "[]" w] by (metis snd_conv)
  show ?thesis
    using assms executeActionStep_status [of i sd w _ _ i' w' k]
    by (auto simp: execute_by_type_def returned_def executeParallelStep_def executeWaitStep_def
        executeSubflowStep_def Let_def sleep_def
        split: if_splits go.splits prod.splits option.splits json.splits dest: p)
qed

lemma ExecuteStep_status:
  assumes "faults w = []" and "ExecuteStep i sd w = Returns (res, err, i') w'"
  shows "inst_ID i' = inst_ID i \<and> ctx_done w' = ctx_done w \<and> faults w' = []
     \<and> map_option inst_Status (instances w' k) = map_option inst_Status (instances w k)"
  using assms(1)
proof (cases rule: ExecuteStep_nofault [of w i sd])
  case (ret w3 result err0 i0 w4 result' w0 r)
  from ret(4) assms(2) have eq: "i0 = i'" "w0 = w'" by simp_all
  from execute_by_type_status [OF ret(1), of k]
  have s: "inst_ID i0 = inst_ID i"
    "map_option inst_Status (instances w4 k) = map_option inst_Status (instances w3 k)"
    by simp_all
  have "frame w3 w4"
    using execute_by_type_frame [of w3 i sd] ret(1) by simp
  then have "ctx_done w4 = ctx_done w3" by (simp add: frame_def)
  then show ?thesis
    using s eq ret(3,9,11,12,13) by simp
next
  case (panic m w0)
  with assms(2) show ?thesis by simp
qed

lemma interrupted_world_left_by_stopped_worker:
  "steps (world_of (processInstance 1 [] 1 (sample_world [] [log_step ''A'' [''B''], log_step ''B'' []])))
     = steps interrupted_world
   \<and> instances (world_of (processInstance 1 [] 1 (sample_world [] [log_step ''A'' [''B''], log_step ''B'' []]))) 1
     = Some interrupted_instance
   \<and> published (world_of (processInstance 1 [] 1 (sample_world [] [log_step ''A'' [''B''], log_step ''B'' []])))
     = published interrupted_world
   \<and> exec_log (world_of (processInstance 1 [] 1 (sample_world [] [log_step ''A'' [''B''], log_step ''B'' []])))
     = exec_log interrupted_world
   \<and> clock (world_of (processInstance 1 [] 1 (sample_world [] [log_step ''A'' [''B''], log_step ''B'' []])))
     = clock interrupted_world
   \<and> faults (world_of (processInstance 1 [] 1 (sample_world [] [log_step ''A'' [''B''], log_step ''B'' []])))
     = faults interrupted_world"
  by (simp add: interrupted_world_def interrupted_instance_def sample_defs exec_defs engine_defs
      eval_nat_numeral)

text \<open>
  C6, as the claim states it, fails. The workflow is \<^verbatim>\<open>A\<close>, then \<^verbatim>\<open>B\<close>. A worker that is
  stopped after one iteration leaves the instance \<^verbatim>\<open>running\<close> with \<^verbatim>\<open>current_step = A\<close>
  persisted and the step record of \<^verbatim>\<open>A\<close> completed. Restarted on that store, the loop
  executes \<^verbatim>\<open>A\<close> a second time before it goes on to \<^verbatim>\<open>B\<close>.
\<close>

theorem restart_counterexample:
  "map_option inst_CurrentStep (instances (world_of (processInstance 1 [] 1
        (sample_world [] [log_step ''A'' [''B''], log_step ''B'' []]))) 1) = Some ''A''
   \<and> map_option inst_Status (instances (world_of (processInstance 1 [] 1
        (sample_world [] [log_step ''A'' [''B''], log_step ''B'' []]))) 1) = Some WorkflowStatusRunning
   \<and> map_option step_Status (step_record 1 ''A'' (world_of (processInstance 1 [] 1
        (sample_world [] [log_step ''A'' [''B''], log_step ''B'' []])))) = Some StepStatusCompleted
   \<and> exec_log (world_of (processInstance 1 [] 1
        (sample_world [] [log_step ''A'' [''B''], log_step ''B'' []]))) = [(1, ''A'')]
   \<and> exec_log (world_of (processInstance 5 [] 1 (world_of (processInstance 1 [] 1
        (sample_world [] [log_step ''A'' [''B''], log_step ''B'' []])))))
     = [(1, ''A''), (1, ''A''), (1, ''B'')]"
  by (simp add: sample_defs exec_defs engine_defs eval_nat_numeral)

text \<open>
  C6, amended. Take a running instance whose persisted \<^verbatim>\<open>current_step\<close> names a step of
  the schema, and restart the orchestration loop on it, the store not failing. Then:
  \<^item> the first step whose execution begins after the restart is the step recorded in
    \<^verbatim>\<open>current_step\<close>: the last step completed before the restart is executed again
    (for every number of iterations observed, and however the run ends);
  \<^item> when that step already has a step record, executing it again creates no row: the
    primary keys in the steps table are the same before and after, the record is re-used;
  \<^item> when that execution returns without error, next-step resolution selects a non-empty
    id that names a step of the schema, no other actor acts during the inter-step delay
    and the engine has not been stopped, the loop continues: the second step whose
    execution begins is the selected step.
\<close>

theorem restart_executes_current_step_again:
  assumes "faults w = []" and "instances w (inst_ID inst) = Some row"
    and "inst_Status row = WorkflowStatusRunning"
    and "inst_CurrentStep inst \<noteq> ''''"
    and "findStepDefinition (Steps schema) (inst_CurrentStep inst) = Some stepDef"
  shows "(\<exists>rest. exec_log (world_of (executeWorkflow (Suc fuel) env inst schema w))
            = exec_log w @ (inst_ID inst, inst_CurrentStep inst) # rest)
    \<and> (step_record (inst_ID inst) (inst_CurrentStep inst) w \<noteq> None \<longrightarrow>
         map step_ID (steps (world_of (ExecuteStep inst stepDef w))) = map step_ID (steps w))
    \<and> (ExecuteStep inst stepDef w = Returns (result, None, inst') w'
         \<and> determineNextStep stepDef result = Ret (nextStepID, None) \<and> nextStepID \<noteq> ''''
         \<and> findStepDefinition (Steps schema) nextStepID = Some nextDef
         \<and> next_external env = NoRequest \<and> \<not> ctx_done w \<longrightarrow>
       (\<exists>rest. exec_log (world_of (executeWorkflow (Suc (Suc fuel)) env inst schema w))
            = exec_log w @ (inst_ID inst, inst_CurrentStep inst) # (inst_ID inst, nextStepID) # rest))"
proof -
  let ?cur = "inst_CurrentStep inst"
  from assms(5) have id: "def_ID stepDef = ?cur"
    by (auto simp: findStepDefinition_def find_Some_iff)
  from assms(5) have ne: "Steps schema \<noteq> []"
    by (auto simp: findStepDefinition_def)
  have E: "\<And>n. executeWorkflow n env inst schema w
      = executeWorkflow_loop n env inst schema ?cur w"
    using ne assms(4)
    by (cases "Steps schema") (simp_all add: executeWorkflow_def Let_def del: executeWorkflow_loop.simps)
  have c: "checkInstanceStatus (inst_ID inst) w = (None, w)"
    using assms(1,2,3) by (rule checkInstanceStatus_running)
  have first: "exec_log (world_of (ExecuteStep inst stepDef w)) = exec_log w @ [(inst_ID inst, ?cur)]"
    using ExecuteStep_nofault_log [OF assms(1), of inst stepDef] id by simp
  have a: "\<exists>rest. exec_log (world_of (executeWorkflow (Suc fuel) env inst schema w))
            = exec_log w @ (inst_ID inst, ?cur) # rest"
  proof -
    from executeWorkflow_loop_Suc_log [OF c assms(5) executeWorkflow_loop_log, of fuel env]
    obtain r2 where "exec_log (world_of (executeWorkflow_loop (Suc fuel) env inst schema ?cur w))
        = exec_log (world_of (ExecuteStep inst stepDef w)) @ r2" by blast
    then have "exec_log (world_of (executeWorkflow (Suc fuel) env inst schema w))
        = exec_log w @ (inst_ID inst, ?cur) # r2"
      using E first by simp
    then show ?thesis by blast
  qed
  have b: "step_record (inst_ID inst) ?cur w \<noteq> None \<longrightarrow>
         map step_ID (steps (world_of (ExecuteStep inst stepDef w))) = map step_ID (steps w)"
    using ExecuteStep_reuses_record [OF assms(1), of inst stepDef] id by auto
  have d: "\<exists>rest. exec_log (world_of (executeWorkflow (Suc (Suc fuel)) env inst schema w))
            = exec_log w @ (inst_ID inst, ?cur) # (inst_ID inst, nextStepID) # rest"
    if x: "ExecuteStep inst stepDef w = Returns (result, None, inst') w'"
      and n: "determineNextStep stepDef result = Ret (nextStepID, None)"
      and nonempty: "nextStepID \<noteq> ''''"
      and f: "findStepDefinition (Steps schema) nextStepID = Some nextDef"
      and q: "next_external env = NoRequest" and nd: "\<not> ctx_done w"
  proof -
    from f have nid: "def_ID nextDef = nextStepID"
      by (auto simp: findStepDefinition_def find_Some_iff)
    from ExecuteStep_status [OF assms(1) x, of "inst_ID inst"]
    have st: "inst_ID inst' = inst_ID inst" "ctx_done w' = ctx_done w" "faults w' = []"
      "map_option inst_Status (instances w' (inst_ID inst)) = map_option inst_Status (instances w (inst_ID inst))"
      by simp_all
    define w3 where "w3 = snd (updateInstanceCurrentStep (inst_ID inst) ?cur w')"
    obtain e where u: "update_instance (inst_ID inst) (\<lambda>row. row\<lparr>inst_CurrentStep := ?cur\<rparr>) w' = (e, w3)"
      by (cases "update_instance (inst_ID inst) (\<lambda>row. row\<lparr>inst_CurrentStep := ?cur\<rparr>) w'")
         (simp add: w3_def updateInstanceCurrentStep_def)
    from update_instance_frame [OF u] st(3)
    have w3: "exec_log w3 = exec_log w'" "ctx_done w3 = ctx_done w'" "faults w3 = []"
      by simp_all
    have s3: "map_option inst_Status (instances w3 (inst_ID inst)) = Some WorkflowStatusRunning"
      using update_instance_status [of "\<lambda>row. row\<lparr>inst_CurrentStep := ?cur\<rparr>" "inst_ID inst" w' "inst_ID inst"]
        u st(4) assms(2,3) by simp
    then obtain row3 where row3: "instances w3 (inst_ID inst) = Some row3"
      "inst_Status row3 = WorkflowStatusRunning"
      by auto
    have L: "executeWorkflow_loop (Suc (Suc fuel)) env inst schema ?cur w
        = executeWorkflow_loop (Suc fuel) (tl env) inst' schema nextStepID (sleep 100 w3)"
      using c assms(5) x n nonempty q nd w3(2) st(2)
      by (subst executeWorkflow_loop.simps)
         (simp add: Let_def w3_def del: executeWorkflow_loop.simps)
    have c2: "checkInstanceStatus (inst_ID inst') (sleep 100 w3) = (None, sleep 100 w3)"
      using w3(3) row3 st(1)
      by (intro checkInstanceStatus_running [where row=row3]) (simp_all add: sleep_def)
    from executeWorkflow_loop_Suc_log [OF c2 f executeWorkflow_loop_log, of fuel "tl env"]
    obtain r2 where r2: "exec_log (world_of (executeWorkflow_loop (Suc fuel) (tl env) inst' schema nextStepID (sleep 100 w3)))
        = exec_log (world_of (ExecuteStep inst' nextDef (sleep 100 w3))) @ r2" by blast
    have second: "exec_log (world_of (ExecuteStep inst' nextDef (sleep 100 w3)))
        = exec_log w3 @ [(inst_ID inst, nextStepID)]"
      using ExecuteStep_nofault_log [of "sleep 100 w3" inst' nextDef] w3(3) st(1) nid
      by (simp add: sleep_def)
    have "exec_log w' = exec_log w @ [(inst_ID inst, ?cur)]"
      using first x by simp
    then have "exec_log (world_of (executeWorkflow (Suc (Suc fuel)) env inst schema w))
        = exec_log w @ (inst_ID inst, ?cur) # (inst_ID inst, nextStepID) # r2"
      using E [of "Suc (Suc fuel)"] L r2 second w3(1) by simp
    then show ?thesis by blast
  qed
  from a b d show ?thesis by blast
qed

theorem restart_executes_current_step_again_witness:
  "faults interrupted_world = []
   \<and> instances interrupted_world (inst_ID interrupted_instance) = Some interrupted_instance
   \<and> inst_Status interrupted_instance = WorkflowStatusRunning
   \<and> inst_CurrentStep interrupted_instance = ''A''
   \<and> findStepDefinition [log_step ''A'' [''B''], log_step ''B'' []] ''A'' = Some (log_step ''A'' [''B''])
   \<and> map_option step_Status (step_record 1 ''A'' interrupted_world) = Some StepStatusCompleted
   \<and> determineNextStep (log_step ''A'' [''B''])
        (Some \<lparr>res_Success = True,
               res_Data = [(''message'', JStr ''hello''), (''level'', JStr ''info''), (''logged'', JBool True)],
               res_Error = ''''\<rparr>) = Ret (''B'', None)
   \<and> findStepDefinition [log_step ''A'' [''B''], log_step ''B'' []] ''B'' = Some (log_step ''B'' [])
   \<and> \<not> ctx_done interrupted_world
   \<and> exec_log (world_of (executeWorkflow 1 [] interrupted_instance
        \<lparr>Steps = [log_step ''A'' [''B''], log_step ''B'' []]\<rparr> interrupted_world))
     = [(1, ''A''), (1, ''A'')]
   \<and> map step_ID (steps (world_of (ExecuteStep interrupted_instance (log_step ''A'' [''B'']) interrupted_world)))
     = [1]
   \<and> exec_log (world_of (executeWorkflow 2 [] interrupted_instance
        \<lparr>Steps = [log_step ''A'' [''B''], log_step ''B'' []]\<rparr> interrupted_world))
     = [(1, ''A''), (1, ''A''), (1, ''B'')]"
proof -
  let ?s = "\<lparr>Steps = [log_step ''A'' [''B''], log_step ''B'' []]\<rparr>"
  let ?res = "Some \<lparr>res_Success = True,
               res_Data = [(''message'', JStr ''hello''), (''level'', JStr ''info''), (''logged'', JBool True)],
               res_Error = ''''\<rparr>"
  let ?w' = "world_of (ExecuteStep interrupted_instance (log_step ''A'' [''B'']) interrupted_world)"
  have f: "faults interrupted_world = []"
    by (simp add: interrupted_world_def sample_defs)
  have r: "instances interrupted_world (inst_ID interrupted_instance) = Some interrupted_instance"
    by (simp add: interrupted_world_def interrupted_instance_def sample_defs)
  have s: "inst_Status interrupted_instance = WorkflowStatusRunning"
    by (simp add: interrupted_instance_def sample_defs)
  have c: "inst_CurrentStep interrupted_instance \<noteq> ''''" "inst_CurrentStep interrupted_instance = ''A''"
    by (simp_all add: interrupted_instance_def)
  have d: "findStepDefinition (Steps ?s) (inst_CurrentStep interrupted_instance) = Some (log_step ''A'' [''B''])"
    by (simp add: findStepDefinition_def log_step_def interrupted_instance_def)
  have rec: "map_option step_Status (step_record 1 ''A'' interrupted_world) = Some StepStatusCompleted"
    by (simp add: interrupted_world_def step_record_def)
  have x: "ExecuteStep interrupted_instance (log_step ''A'' [''B'']) interrupted_world
      = Returns (?res, None, interrupted_instance) ?w'"
    by (simp add: interrupted_world_def interrupted_instance_def sample_defs exec_defs)
  have n: "determineNextStep (log_step ''A'' [''B'']) ?res = Ret (''B'', None)"
    by (simp add: determineNextStep_def log_step_def)
  have g: "findStepDefinition (Steps ?s) ''B'' = Some (log_step ''B'' [])"
    by (simp add: findStepDefinition_def log_step_def)
  have nd: "\<not> ctx_done interrupted_world"
    by (simp add: interrupted_world_def sample_defs)
  have e1: "exec_log (world_of (executeWorkflow 1 [] interrupted_instance ?s interrupted_world))
     = [(1, ''A''), (1, ''A'')]"
    by (simp add: interrupted_world_def interrupted_instance_def sample_defs exec_defs engine_defs
        eval_nat_numeral)
  have e2: "exec_log (world_of (executeWorkflow 2 [] interrupted_instance ?s interrupted_world))
     = [(1, ''A''), (1, ''A''), (1, ''B'')]"
    by (simp add: interrupted_world_def interrupted_instance_def sample_defs exec_defs engine_defs
        eval_nat_numeral)
  have ids: "map step_ID (steps interrupted_world) = [1]"
    by (simp add: interrupted_world_def)
  have i1: "inst_ID interrupted_instance = 1"
    by (simp add: interrupted_instance_def sample_defs)
  note t = restart_executes_current_step_again [OF f r s c(1) d,
      where fuel=0 and env="[]" and result="?res" and inst'=interrupted_instance and w'="?w'"
        and nextStepID="''B''" and nextDef="log_step ''B'' []"]
  have b: "map step_ID (steps ?w') = [1]"
    using t rec ids i1 c(2) by auto
  show ?thesis
    using t f r s c(2) d rec n g nd e1 e2 b by simp
qed

section \<open>One worker for each instance\<close>

text \<open>
  What the dispatcher does right: an id that is in the set of running instances when it
  is received starts no worker.
\<close>

lemma processQueue_already_running:
  assumes "eng_queue e = instanceID # rest" and "instanceID \<in> eng_instances e"
  shows "processQueue e = e\<lparr>eng_queue := rest\<rparr>"
  using assms by (simp add: processQueue_def)

lemmas sched_defs =
  run_engine_def NewEngine_def QueueInstance_def processQueue_def processInstance_store_def
  processInstance_exit_def active_workers_def sample_config_def Let_def

lemma requeue_of_marked_instance_starts_no_worker:
  "eng_workers (run_engine [Enqueue 1, Dispatch, Store 0, Enqueue 1, Dispatch] (NewEngine sample_config))
     = [(1, Marked)]"
  by (simp add: sched_defs)

text \<open>
  C5: the code does not do what the claim says. The id 1 is queued twice. The dispatcher
  receives it twice before the first goroutine has stored the id in the set of running
  instances, so the check finds the set empty both times and two goroutines are started;
  both then store the id and run \<^verbatim>\<open>processInstance\<close> for instance 1 at the same time.
\<close>

theorem two_workers_for_one_instance:
  "eng_queue (run_engine [Enqueue 1, Enqueue 1] (NewEngine sample_config)) = [1, 1]
   \<and> eng_workers (run_engine [Enqueue 1, Enqueue 1, Dispatch, Dispatch] (NewEngine sample_config))
       = [(1, Spawned), (1, Spawned)]
   \<and> eng_workers (run_engine [Enqueue 1, Enqueue 1, Dispatch, Dispatch, Store 0, Store 1]
        (NewEngine sample_config)) = [(1, Marked), (1, Marked)]
   \<and> active_workers 1 (run_engine [Enqueue 1, Enqueue 1, Dispatch, Dispatch, Store 0, Store 1]
        (NewEngine sample_config)) = 2"
  by (simp add: sched_defs)

end
